theory Spec2Isabelle
  imports Complex_Main
begin

section \<open>Master ETL orchestration (00_master_orchestration.py)\<close>

subsection \<open>Configuration and pipeline definition\<close>

text \<open>
  The module-level configuration of the master notebook. The source binds
  \<open>INCREMENTAL_MODE = True\<close>, \<open>LAST_SUCCESSFUL_RUN = "2025-01-01 00:00:00"\<close>,
  \<open>NOTEBOOK_TIMEOUT_SECONDS = 3600\<close> and \<open>PARALLEL_EXECUTION = False\<close>, and invites the
  operator to edit them; \<open>ETL_RUN_ID\<close> is the formatted start time. The model keeps them as
  one record that every function below reads.
\<close>

record globals =
  ETL_RUN_ID :: string
  INCREMENTAL_MODE :: bool
  LAST_SUCCESSFUL_RUN :: string
  NOTEBOOK_TIMEOUT_SECONDS :: nat
  PARALLEL_EXECUTION :: bool

definition default_globals :: "string \<Rightarrow> globals" where
  "default_globals run_id =
     \<lparr>ETL_RUN_ID = run_id, INCREMENTAL_MODE = True,
      LAST_SUCCESSFUL_RUN = ''2025-01-01 00:00:00'',
      NOTEBOOK_TIMEOUT_SECONDS = 3600, PARALLEL_EXECUTION = False\<rparr>"

text \<open>One entry of a stage's \<open>notebooks\<close> list and one stage of \<open>etl_pipeline\<close>.\<close>

record notebook =
  nb_path :: string
  nb_name :: string
  nb_timeout :: nat
  nb_parameters :: "(string \<times> string) list"

record stage_config =
  description :: string
  parallel :: bool
  notebooks :: "notebook list"

text \<open>Python's \<open>str\<close> of a bool.\<close>

definition str_bool :: "bool \<Rightarrow> string" where
  "str_bool b = (if b then ''True'' else ''False'')"

definition notebook_parameters :: "globals \<Rightarrow> (string \<times> string) list" where
  "notebook_parameters g =
     [(''INCREMENTAL_MODE'', str_bool (INCREMENTAL_MODE g)),
      (''LAST_RUN_TIMESTAMP'', LAST_SUCCESSFUL_RUN g)]"

text \<open>
  \<open>etl_pipeline\<close> is a dict literal; its iteration order is the order of the literal, so
  it is an association list here.
\<close>

definition etl_pipeline :: "globals \<Rightarrow> (string \<times> stage_config) list" where
  "etl_pipeline g =
     [(''stage_1_entities'',
        \<lparr>description = ''Load entity nodes (can run in parallel)'',
         parallel = True,
         notebooks =
           [\<lparr>nb_path = ''/arthur-health/01_patients_etl'', nb_name = ''patients'',
              nb_timeout = 3600, nb_parameters = notebook_parameters g\<rparr>,
            \<lparr>nb_path = ''/arthur-health/02_medications_etl'', nb_name = ''medications'',
              nb_timeout = 3600, nb_parameters = notebook_parameters g\<rparr>]\<rparr>),
      (''stage_2_relationships'',
        \<lparr>description = ''Create relationships between entities (requires stage 1 complete)'',
         parallel = True,
         notebooks =
           [\<lparr>nb_path = ''/arthur-health/03_patient_medication_relationships'',
              nb_name = ''patient_medication_relationships'',
              nb_timeout = 3600, nb_parameters = notebook_parameters g\<rparr>]\<rparr>),
      (''stage_3_validation'',
        \<lparr>description = ''Data quality validation and gap detection'',
         parallel = False,
         notebooks = []\<rparr>)]"

subsection \<open>The environment\<close>

text \<open>
  Everything outside the notebook is a world of type \<open>'w\<close>. \<open>dbutils.notebook.run\<close> takes
  the path, the timeout and the arguments, changes the world and either returns the exit
  value of the child notebook (\<open>Inr\<close>) or raises (\<open>Inl\<close>, carrying \<open>str(e)\<close>).
  \<open>datetime.now()\<close> reads the clock of the world; durations are kept in microseconds,
  the resolution of a \<open>timedelta\<close>, where the source converts them to float seconds.
\<close>

record 'w env =
  dbutils_notebook_run ::
    "'w \<Rightarrow> string \<Rightarrow> nat \<Rightarrow> (string \<times> string) list \<Rightarrow> (string + string) \<times> 'w"
  datetime_now :: "'w \<Rightarrow> int"

subsection \<open>Execution functions\<close>

text \<open>The dict \<open>{"result": ..., "error": ...}\<close> and the entry appended to \<open>results\<close>.\<close>

record run_result =
  rr_result :: "string option"
  rr_error :: "string option"

record unit_result =
  ur_notebook :: string
  ur_success :: bool
  ur_duration :: int
  ur_result :: run_result

definition run_notebook_with_logging ::
  "'w env \<Rightarrow> string \<Rightarrow> string \<Rightarrow> (string \<times> string) list \<Rightarrow> nat \<Rightarrow> 'w
     \<Rightarrow> (bool \<times> run_result \<times> int) \<times> 'w" where
  "run_notebook_with_logging e notebook_path notebook_name params tmo w =
     (let start_time = datetime_now e w in
      case dbutils_notebook_run e w notebook_path tmo params of
        (Inr res, w') \<Rightarrow>
          ((True, \<lparr>rr_result = Some res, rr_error = None\<rparr>, datetime_now e w' - start_time), w')
      | (Inl err, w') \<Rightarrow>
          ((False, \<lparr>rr_result = None, rr_error = Some err\<rparr>, datetime_now e w' - start_time), w'))"

text \<open>
  The two \<open>for\<close> loops of \<open>run_stage\<close>, one per branch of its \<open>if\<close>, each translated from
  its own lines of the source. The arguments \<open>results\<close> and \<open>all_success\<close> are the loop's
  variables; \<open>break\<close> returns them as they stand.
\<close>

fun parallel_branch ::
  "'w env \<Rightarrow> string \<Rightarrow> notebook list \<Rightarrow> unit_result list \<Rightarrow> bool \<Rightarrow> 'w
     \<Rightarrow> (bool \<times> unit_result list) \<times> 'w" where
  "parallel_branch e stage_name [] results all_success w = ((all_success, results), w)"
| "parallel_branch e stage_name (nb # rest) results all_success w =
     (case run_notebook_with_logging e (nb_path nb) (nb_name nb) (nb_parameters nb) (nb_timeout nb) w of
        ((success, res, dur), w') \<Rightarrow>
          (let results' = results @
                 [\<lparr>ur_notebook = nb_name nb, ur_success = success,
                   ur_duration = dur, ur_result = res\<rparr>]
           in if \<not> success then
                (if stage_name = ''stage_1_entities'' then ((False, results'), w')
                 else parallel_branch e stage_name rest results' False w')
              else parallel_branch e stage_name rest results' all_success w'))"

fun sequential_branch ::
  "'w env \<Rightarrow> string \<Rightarrow> notebook list \<Rightarrow> unit_result list \<Rightarrow> bool \<Rightarrow> 'w
     \<Rightarrow> (bool \<times> unit_result list) \<times> 'w" where
  "sequential_branch e stage_name [] results all_success w = ((all_success, results), w)"
| "sequential_branch e stage_name (nb # rest) results all_success w =
     (case run_notebook_with_logging e (nb_path nb) (nb_name nb) (nb_parameters nb) (nb_timeout nb) w of
        ((success, res, dur), w') \<Rightarrow>
          (let results' = results @
                 [\<lparr>ur_notebook = nb_name nb, ur_success = success,
                   ur_duration = dur, ur_result = res\<rparr>]
           in if \<not> success then
                (if stage_name = ''stage_1_entities'' then ((False, results'), w')
                 else sequential_branch e stage_name rest results' False w')
              else sequential_branch e stage_name rest results' all_success w'))"

definition run_stage ::
  "'w env \<Rightarrow> globals \<Rightarrow> string \<Rightarrow> stage_config \<Rightarrow> 'w \<Rightarrow> (bool \<times> unit_result list) \<times> 'w" where
  "run_stage e g stage_name stage_config w =
     (if parallel stage_config \<and> PARALLEL_EXECUTION g
      then parallel_branch e stage_name (notebooks stage_config) [] True w
      else sequential_branch e stage_name (notebooks stage_config) [] True w)"

subsection \<open>The pipeline loop\<close>

record stage_result =
  sr_success :: bool
  sr_results :: "unit_result list"

text \<open>
  \<open>pipeline_results[stage_name] = ...\<close> on a dict: an existing key keeps its position
  and takes the new value, a new key goes to the end.
\<close>

fun dict_set :: "('k \<times> 'v) list \<Rightarrow> 'k \<Rightarrow> 'v \<Rightarrow> ('k \<times> 'v) list" where
  "dict_set [] k v = [(k, v)]"
| "dict_set ((k', v') # d) k v = (if k' = k then (k, v) # d else (k', v') # dict_set d k v)"

fun pipeline_loop ::
  "'w env \<Rightarrow> globals \<Rightarrow> (string \<times> stage_config) list \<Rightarrow> (string \<times> stage_result) list \<Rightarrow> bool
     \<Rightarrow> 'w \<Rightarrow> ((string \<times> stage_result) list \<times> bool) \<times> 'w" where
  "pipeline_loop e g [] pipeline_results pipeline_success w =
     ((pipeline_results, pipeline_success), w)"
| "pipeline_loop e g ((stage_name, stage_config) # rest) pipeline_results pipeline_success w =
     (case run_stage e g stage_name stage_config w of
        ((stage_success, stage_results), w') \<Rightarrow>
          (let pipeline_results' = dict_set pipeline_results stage_name
                 \<lparr>sr_success = stage_success, sr_results = stage_results\<rparr>
           in if \<not> stage_success then ((pipeline_results', False), w')
              else pipeline_loop e g rest pipeline_results' pipeline_success w'))"

subsection \<open>Run metadata and final status\<close>

record etl_metadata =
  md_run_id :: string
  md_pipeline_name :: string
  md_start_time :: int
  md_end_time :: int
  md_duration_seconds :: int
  md_status :: string
  md_incremental_mode :: bool
  md_last_successful_run :: string
  md_stages_executed :: nat
  md_stages_succeeded :: nat
  md_stages_failed :: nat
  md_notebooks_executed :: nat
  md_notebooks_succeeded :: nat
  md_notebooks_failed :: nat
  md_detailed_results :: "(string \<times> stage_result) list"

text \<open>
  \<open>pipeline_results.values()\<close>, and the generator sums of cell 6: \<open>sum(1 for x in xs if c)\<close>
  counts the elements that satisfy \<open>c\<close>.
\<close>

definition dict_values :: "('k \<times> 'v) list \<Rightarrow> 'v list" where
  "dict_values d = map snd d"

definition build_etl_metadata ::
  "globals \<Rightarrow> int \<Rightarrow> int \<Rightarrow> (string \<times> stage_result) list \<Rightarrow> bool \<Rightarrow> etl_metadata" where
  "build_etl_metadata g pipeline_start_time pipeline_end_time pipeline_results pipeline_success =
     \<lparr>md_run_id = ETL_RUN_ID g,
      md_pipeline_name = ''arthur_health_master_etl'',
      md_start_time = pipeline_start_time,
      md_end_time = pipeline_end_time,
      md_duration_seconds = pipeline_end_time - pipeline_start_time,
      md_status = (if pipeline_success then ''success'' else ''failed''),
      md_incremental_mode = INCREMENTAL_MODE g,
      md_last_successful_run = LAST_SUCCESSFUL_RUN g,
      md_stages_executed = length pipeline_results,
      md_stages_succeeded = length (filter sr_success (dict_values pipeline_results)),
      md_stages_failed = length (filter (\<lambda>s. \<not> sr_success s) (dict_values pipeline_results)),
      md_notebooks_executed =
        sum_list (map (\<lambda>s. length (sr_results s)) (dict_values pipeline_results)),
      md_notebooks_succeeded =
        sum_list (map (\<lambda>s. length (filter ur_success (sr_results s)))
          (dict_values pipeline_results)),
      md_notebooks_failed =
        sum_list (map (\<lambda>s. length (filter (\<lambda>nb. \<not> ur_success nb) (sr_results s)))
          (dict_values pipeline_results)),
      md_detailed_results = pipeline_results\<rparr>"

text \<open>
  What one execution of the master notebook leaves behind. Cell 8 either prints the
  timestamp the next incremental run should use and reaches \<open>dbutils.notebook.exit\<close>
  (\<open>Inr\<close>, the exit payload), or raises \<open>Exception\<close> (\<open>Inl\<close>, its message). No cell assigns
  to a configuration variable after cell 1, so the globals come back as they went in.
  Cell 7 only builds a DataFrame inside \<open>try\<close>; the write to the logging table is
  commented out in the source.
\<close>

record exit_payload =
  ex_run_id :: string
  ex_status :: string
  ex_duration_seconds :: int
  ex_notebooks_succeeded :: nat
  ex_notebooks_failed :: nat

record 'w run =
  run_globals :: globals
  run_metadata :: etl_metadata
  run_next_timestamp :: "int option"
  run_exit :: "string + exit_payload"
  run_world :: 'w

definition run_pipeline ::
  "'w env \<Rightarrow> globals \<Rightarrow> (string \<times> stage_config) list \<Rightarrow> 'w \<Rightarrow> 'w run" where
  "run_pipeline e g stages w =
     (let pipeline_start_time = datetime_now e w in
      case pipeline_loop e g stages [] True w of
        ((pipeline_results, pipeline_success), w') \<Rightarrow>
          (let pipeline_end_time = datetime_now e w';
               md = build_etl_metadata g pipeline_start_time pipeline_end_time
                      pipeline_results pipeline_success
           in if pipeline_success then
                \<lparr>run_globals = g, run_metadata = md,
                 run_next_timestamp = Some pipeline_end_time,
                 run_exit = Inr \<lparr>ex_run_id = ETL_RUN_ID g, ex_status = ''success'',
                                  ex_duration_seconds = pipeline_end_time - pipeline_start_time,
                                  ex_notebooks_succeeded = md_notebooks_succeeded md,
                                  ex_notebooks_failed = md_notebooks_failed md\<rparr>,
                 run_world = w'\<rparr>
              else
                \<lparr>run_globals = g, run_metadata = md,
                 run_next_timestamp = None,
                 run_exit = Inl (''ETL Pipeline failed at run '' @ ETL_RUN_ID g),
                 run_world = w'\<rparr>))"

definition master_orchestration :: "'w env \<Rightarrow> globals \<Rightarrow> 'w \<Rightarrow> 'w run" where
  "master_orchestration e g w = run_pipeline e g (etl_pipeline g) w"

subsection \<open>Reference executions used to state the properties\<close>

text \<open>
  \<open>unit_entry\<close> is the dict \<open>run_stage\<close> appends for a notebook; \<open>attempt_all\<close> runs every
  notebook of a list in order, whatever the outcomes, and returns the entries with the
  world the last call leaves.
\<close>

definition unit_entry :: "notebook \<Rightarrow> bool \<times> run_result \<times> int \<Rightarrow> unit_result" where
  "unit_entry nb out =
     \<lparr>ur_notebook = nb_name nb, ur_success = fst out,
      ur_duration = snd (snd out), ur_result = fst (snd out)\<rparr>"

definition attempt :: "'w env \<Rightarrow> notebook \<Rightarrow> 'w \<Rightarrow> unit_result \<times> 'w" where
  "attempt e nb w =
     (case run_notebook_with_logging e (nb_path nb) (nb_name nb) (nb_parameters nb) (nb_timeout nb) w of
        (out, w') \<Rightarrow> (unit_entry nb out, w'))"

fun attempt_all :: "'w env \<Rightarrow> notebook list \<Rightarrow> 'w \<Rightarrow> unit_result list \<times> 'w" where
  "attempt_all e [] w = ([], w)"
| "attempt_all e (nb # rest) w =
     (case attempt e nb w of
        (r, w') \<Rightarrow> (case attempt_all e rest w' of (rs, w'') \<Rightarrow> (r # rs, w'')))"

subsection \<open>Auxiliary predicates and concrete scenarios\<close>

text \<open>
  A stage result is consistent when its success flag says that all its units succeeded.
  \<open>scripted_env failing\<close> is an environment whose world is the list of the notebook paths
  run so far: a notebook fails exactly when its path is in \<open>failing\<close>, and the clock counts
  the calls. \<open>etl_pipeline_with_validation\<close> is the pipeline of the source with the
  data-quality notebook, which the source keeps in a comment, enabled in stage 3.
\<close>

definition stage_consistent :: "stage_result \<Rightarrow> bool" where
  "stage_consistent s = (sr_success s = list_all ur_success (sr_results s))"

definition scripted_env :: "string list \<Rightarrow> (string list) env" where
  "scripted_env failing =
     \<lparr>dbutils_notebook_run =
        (\<lambda>w p t a. (if p \<in> set failing then Inl ''boom'' else Inr ''done'', w @ [p])),
      datetime_now = (\<lambda>w. int (length w))\<rparr>"

definition etl_pipeline_with_validation :: "globals \<Rightarrow> (string \<times> stage_config) list" where
  "etl_pipeline_with_validation g =
     take 2 (etl_pipeline g) @
     [(''stage_3_validation'',
        \<lparr>description = ''Data quality validation and gap detection'',
         parallel = False,
         notebooks =
           [\<lparr>nb_path = ''/arthur-health/data_quality_validation'', nb_name = ''data_quality'',
              nb_timeout = 1800, nb_parameters = []\<rparr>]\<rparr>)]"

definition unit_abc :: "string \<Rightarrow> notebook" where
  "unit_abc p = \<lparr>nb_path = p, nb_name = p, nb_timeout = 3600, nb_parameters = []\<rparr>"

definition stage_abc :: stage_config where
  "stage_abc = \<lparr>description = ''three units'', parallel = True,
                 notebooks = [unit_abc ''A'', unit_abc ''B'', unit_abc ''C'']\<rparr>"

section \<open>Extraction queries (01_patients_etl.py, 02_medications_etl.py, 03_patient_medication_relationships.py)\<close>

text \<open>
  Each ETL notebook builds \<open>sql_query\<close>, the text of a derived table, in an \<open>if\<close> on its own
  \<open>INCREMENTAL_MODE\<close>. The model keeps the parts of that text: the select list, the table,
  the \<open>WHERE\<close> clause (absent in the full-refresh text) and the alias. A condition is
  \<open>column > 'literal'\<close> or the \<open>OR\<close> of two conditions. \<open>format_value\<close> is what an f-string
  writes for \<open>{LAST_RUN_TIMESTAMP}\<close>: the string itself, and \<open>None\<close> for Python's \<open>None\<close>.
\<close>

datatype sql_cond = Gt string string | Or sql_cond sql_cond

record sql_select =
  sel_columns :: "string list"
  sel_from :: string
  sel_where :: "sql_cond option"
  sel_alias :: string

definition format_value :: "string option \<Rightarrow> string" where
  "format_value v = (case v of None \<Rightarrow> ''None'' | Some s \<Rightarrow> s)"

definition patients_columns :: "string list" where
  "patients_columns =
     [''patient_id'', ''mrn'', ''first_name'', ''last_name'', ''date_of_birth'', ''gender'',
      ''phone_number'', ''email'', ''address_line1'', ''address_line2'', ''city'', ''state'',
      ''zip_code'', ''insurance_provider'', ''insurance_plan_id'', ''insurance_member_id'',
      ''plan_type'', ''policy_text'', ''clinical_narrative'', ''risk_score'',
      ''chronic_conditions_count'', ''active_medications_count'', ''last_visit_date'',
      ''next_appointment_date'', ''primary_care_provider_id'', ''care_coordinator_id'',
      ''preferred_language'', ''communication_preference'', ''hipaa_consent'',
      ''last_modified'', ''created_at'']"

definition medications_columns :: "string list" where
  "medications_columns =
     [''medication_id'', ''rxnorm_code'', ''generic_name'', ''brand_name'', ''drug_class'',
      ''dosage_form'', ''strength'', ''instructions'', ''side_effects'', ''contraindications'',
      ''interactions'', ''requires_prior_auth'', ''formulary_tier'', ''estimated_cost_30day'',
      ''estimated_cost_90day'', ''therapeutic_category'', ''controlled_substance_schedule'',
      ''pregnancy_category'', ''fda_approved_date'', ''last_modified'', ''created_at'']"

definition prescriptions_columns :: "string list" where
  "prescriptions_columns =
     [''prescription_id'', ''patient_id'', ''medication_id'', ''prescribing_provider_id'',
      ''prescribed_date'', ''start_date'', ''end_date'', ''dosage'', ''frequency'',
      ''duration_days'', ''refills_allowed'', ''refills_remaining'', ''last_refill_date'',
      ''next_refill_due_date'', ''pharmacy_id'', ''adherence_score'', ''missed_doses_30days'',
      ''days_supply'', ''quantity'', ''prior_auth_status'', ''prior_auth_expiry_date'',
      ''denial_reason'', ''cost_patient'', ''cost_insurance'', ''status'',
      ''discontinuation_reason'', ''prescribing_reason'', ''last_modified'', ''created_at'']"

definition sql_query_patients :: "bool \<Rightarrow> string option \<Rightarrow> sql_select" where
  "sql_query_patients incremental_mode last_run_timestamp =
     (if incremental_mode then
        \<lparr>sel_columns = patients_columns, sel_from = ''healthcare_fhir.patients'',
         sel_where = Some (Or (Gt ''last_modified'' (format_value last_run_timestamp))
                              (Gt ''created_at'' (format_value last_run_timestamp))),
         sel_alias = ''patients_incremental''\<rparr>
      else
        \<lparr>sel_columns = patients_columns, sel_from = ''healthcare_fhir.patients'',
         sel_where = None, sel_alias = ''patients_full''\<rparr>)"

definition sql_query_medications :: "bool \<Rightarrow> string option \<Rightarrow> sql_select" where
  "sql_query_medications incremental_mode last_run_timestamp =
     (if incremental_mode then
        \<lparr>sel_columns = medications_columns, sel_from = ''healthcare_fhir.medications'',
         sel_where = Some (Or (Gt ''last_modified'' (format_value last_run_timestamp))
                              (Gt ''created_at'' (format_value last_run_timestamp))),
         sel_alias = ''medications_incremental''\<rparr>
      else
        \<lparr>sel_columns = medications_columns, sel_from = ''healthcare_fhir.medications'',
         sel_where = None, sel_alias = ''medications_full''\<rparr>)"

definition sql_query_prescriptions :: "bool \<Rightarrow> string option \<Rightarrow> sql_select" where
  "sql_query_prescriptions incremental_mode last_run_timestamp =
     (if incremental_mode then
        \<lparr>sel_columns = prescriptions_columns, sel_from = ''healthcare_fhir.prescriptions'',
         sel_where = Some (Or (Gt ''last_modified'' (format_value last_run_timestamp))
                              (Gt ''created_at'' (format_value last_run_timestamp))),
         sel_alias = ''prescriptions_incremental''\<rparr>
      else
        \<lparr>sel_columns = prescriptions_columns, sel_from = ''healthcare_fhir.prescriptions'',
         sel_where = None, sel_alias = ''prescriptions_full''\<rparr>)"

subsection \<open>The warehouse that evaluates the query\<close>

text \<open>
  The query runs in the warehouse, outside the repository. What the properties need of it
  is the meaning of the \<open>WHERE\<close> clause the notebooks write, in SQL's three-valued logic: a
  comparison with a \<open>NULL\<close> column is unknown, \<open>OR\<close> is true when one side is true, and a
  row is returned when the condition is true. The warehouse converts the character literal
  to a datetime before comparing; a literal it cannot convert fails the whole query.
  A warehouse gives the rows of each table, the datetime in a column of a row (\<open>None\<close> for
  \<open>NULL\<close>) and the conversion of a literal (\<open>None\<close> when it is not a datetime). The select
  list is carried in the query; rows are returned whole.
\<close>

record ('r, 't) warehouse =
  wh_rows :: "string \<Rightarrow> 'r list"
  wh_datetime :: "'r \<Rightarrow> string \<Rightarrow> 't option"
  wh_convert :: "string \<Rightarrow> 't option"

datatype sql_bool = SqlTrue | SqlFalse | SqlUnknown

datatype sql_error = ConversionFailed

fun sql_or :: "sql_bool \<Rightarrow> sql_bool \<Rightarrow> sql_bool" where
  "sql_or SqlTrue b = SqlTrue"
| "sql_or a SqlTrue = SqlTrue"
| "sql_or SqlFalse SqlFalse = SqlFalse"
| "sql_or a b = SqlUnknown"

fun literals :: "sql_cond \<Rightarrow> string list" where
  "literals (Gt c lit) = [lit]"
| "literals (Or a b) = literals a @ literals b"

fun eval_cond :: "('r, 't::linorder) warehouse \<Rightarrow> 'r \<Rightarrow> sql_cond \<Rightarrow> sql_bool" where
  "eval_cond wh r (Gt c lit) =
     (case (wh_datetime wh r c, wh_convert wh lit) of
        (Some v, Some t) \<Rightarrow> if t < v then SqlTrue else SqlFalse
      | _ \<Rightarrow> SqlUnknown)"
| "eval_cond wh r (Or a b) = sql_or (eval_cond wh r a) (eval_cond wh r b)"

definition jdbc_load :: "('r, 't::linorder) warehouse \<Rightarrow> sql_select \<Rightarrow> sql_error + 'r list" where
  "jdbc_load wh q =
     (case sel_where q of
        None \<Rightarrow> Inr (wh_rows wh (sel_from q))
      | Some c \<Rightarrow>
          if list_ex (\<lambda>lit. wh_convert wh lit = None) (literals c) then Inl ConversionFailed
          else Inr (filter (\<lambda>r. eval_cond wh r c = SqlTrue) (wh_rows wh (sel_from q))))"

text \<open>
  The selection the specification describes: the column holds a datetime later than the
  watermark, for \<open>last_modified\<close> or for \<open>created_at\<close>.
\<close>

definition later_than :: "('r, 't::linorder) warehouse \<Rightarrow> 't \<Rightarrow> 'r \<Rightarrow> string \<Rightarrow> bool" where
  "later_than wh t r c = (case wh_datetime wh r c of None \<Rightarrow> False | Some v \<Rightarrow> t < v)"

definition changed_since :: "('r, 't::linorder) warehouse \<Rightarrow> 't \<Rightarrow> 'r \<Rightarrow> bool" where
  "changed_since wh t r = (later_than wh t r ''last_modified'' \<or> later_than wh t r ''created_at'')"

text \<open>
  A warehouse for concrete runs: a row is the pair of its \<open>last_modified\<close> and \<open>created_at\<close>
  days (written yyyymmdd), every table holds the same three rows, and the only literal that
  converts is the watermark of the source.
\<close>

definition example_warehouse :: "(nat \<times> nat, nat) warehouse" where
  "example_warehouse =
     \<lparr>wh_rows = (\<lambda>t. [(20241231, 20241230), (20250102, 20241230), (20250103, 20250103)]),
      wh_datetime = (\<lambda>r c. if c = ''last_modified'' then Some (fst r)
                            else if c = ''created_at'' then Some (snd r) else None),
      wh_convert = (\<lambda>s. if s = ''2025-01-01 00:00:00'' then Some 20250101 else None)\<rparr>"

section \<open>Text vectorization (generate_embedding of 01_patients_etl.py and 02_medications_etl.py)\<close>

text \<open>
  A Python \<open>str\<close> is the list of its code points, so that \<open>text[:8000]\<close> and \<open>strip\<close> count
  what Python counts. \<open>py_isspace\<close> is the set of code points \<open>str.strip()\<close> removes.
\<close>

type_synonym unicode = "nat list"

definition py_isspace :: "nat \<Rightarrow> bool" where
  "py_isspace c =
     ((9 \<le> c \<and> c \<le> 13) \<or> (28 \<le> c \<and> c \<le> 32) \<or> c = 133 \<or> c = 160 \<or> c = 5760 \<or>
      (8192 \<le> c \<and> c \<le> 8202) \<or> c = 8232 \<or> c = 8233 \<or> c = 8239 \<or> c = 8287 \<or> c = 12288)"

definition py_strip :: "unicode \<Rightarrow> unicode" where
  "py_strip s = rev (dropWhile py_isspace (rev (dropWhile py_isspace s)))"

text \<open>
  A parsed JSON document, which is also the type of what \<open>generate_embedding\<close> returns: the
  source returns whatever it finds at \<open>["data"][0]["embedding"]\<close>.
\<close>

datatype json =
  JNull | JBool bool | JNumber real | JString string
  | JArray "json list" | JObject "(string \<times> json) list"

definition zero_vector :: json where
  "zero_vector = JArray (replicate 1536 (JNumber 0))"

text \<open>
  The embedding service. \<open>requests.post\<close> takes the URL, the headers, the JSON payload and
  the timeout; it changes the world and either raises (\<open>Inl\<close>) or returns a response
  (\<open>Inr\<close>) with a status code and a body, whose JSON reading is \<open>None\<close> when the body is not
  JSON.
\<close>

datatype request_exception = Timeout | ConnectionError | OtherRequestException string

record response =
  status_code :: nat
  body_json :: "json option"

record payload =
  pl_input :: unicode
  pl_encoding_format :: string

type_synonym 'w requests_post =
  "'w \<Rightarrow> string \<Rightarrow> (string \<times> string) list \<Rightarrow> payload \<Rightarrow> nat \<Rightarrow> (request_exception + response) \<times> 'w"

datatype py_exception =
  RequestException request_exception | HTTPError nat | JSONDecodeError
  | KeyError | IndexError | TypeError

definition AZURE_OPENAI_ENDPOINT :: string where
  "AZURE_OPENAI_ENDPOINT = ''https://arthur-health.openai.azure.com/''"

definition AZURE_OPENAI_DEPLOYMENT :: string where
  "AZURE_OPENAI_DEPLOYMENT = ''text-embedding-3-small''"

definition AZURE_OPENAI_API_VERSION :: string where
  "AZURE_OPENAI_API_VERSION = ''2024-02-01''"

definition embeddings_url :: string where
  "embeddings_url =
     AZURE_OPENAI_ENDPOINT @ ''openai/deployments/'' @ AZURE_OPENAI_DEPLOYMENT @
     ''/embeddings?api-version='' @ AZURE_OPENAI_API_VERSION"

definition embeddings_headers :: "string \<Rightarrow> (string \<times> string) list" where
  "embeddings_headers azure_openai_key =
     [(''Content-Type'', ''application/json''), (''api-key'', azure_openai_key)]"

definition embeddings_payload :: "unicode \<Rightarrow> payload" where
  "embeddings_payload text = \<lparr>pl_input = take 8000 text, pl_encoding_format = ''float''\<rparr>"

text \<open>\<open>response.raise_for_status()\<close>, and Python's subscripts on a parsed JSON value.\<close>

definition raise_for_status :: "response \<Rightarrow> py_exception option" where
  "raise_for_status r =
     (if 400 \<le> status_code r \<and> status_code r < 600 then Some (HTTPError (status_code r))
      else None)"

definition response_json :: "response \<Rightarrow> py_exception + json" where
  "response_json r = (case body_json r of None \<Rightarrow> Inl JSONDecodeError | Some j \<Rightarrow> Inr j)"

fun getitem_key :: "json \<Rightarrow> string \<Rightarrow> py_exception + json" where
  "getitem_key (JObject kvs) k = (case map_of kvs k of None \<Rightarrow> Inl KeyError | Some v \<Rightarrow> Inr v)"
| "getitem_key j k = Inl TypeError"

fun getitem_first :: "json \<Rightarrow> py_exception + json" where
  "getitem_first (JArray xs) = (case xs of [] \<Rightarrow> Inl IndexError | x # _ \<Rightarrow> Inr x)"
| "getitem_first (JString s) = (case s of [] \<Rightarrow> Inl IndexError | c # _ \<Rightarrow> Inr (JString [c]))"
| "getitem_first (JObject kvs) = Inl KeyError"
| "getitem_first j = Inl TypeError"

text \<open>
  The statements after \<open>requests.post\<close> inside the \<open>try\<close>: any of them may raise.
\<close>

definition response_embedding :: "response \<Rightarrow> py_exception + json" where
  "response_embedding r =
     (case raise_for_status r of
        Some ex \<Rightarrow> Inl ex
      | None \<Rightarrow>
          (case response_json r of
             Inl ex \<Rightarrow> Inl ex
           | Inr body \<Rightarrow>
               (case getitem_key body ''data'' of
                  Inl ex \<Rightarrow> Inl ex
                | Inr d \<Rightarrow>
                    (case getitem_first d of
                       Inl ex \<Rightarrow> Inl ex
                     | Inr x \<Rightarrow> getitem_key x ''embedding''))))"

text \<open>The body of the \<open>try\<close> block: the exception it raises, or the embedding.\<close>

definition embedding_request ::
  "'w requests_post \<Rightarrow> string \<Rightarrow> unicode \<Rightarrow> 'w \<Rightarrow> (py_exception + json) \<times> 'w" where
  "embedding_request post azure_openai_key text w =
     (case post w embeddings_url (embeddings_headers azure_openai_key) (embeddings_payload text) 30 of
        (Inl ex, w') \<Rightarrow> (Inl (RequestException ex), w')
      | (Inr r, w') \<Rightarrow> (response_embedding r, w'))"

text \<open>
  \<open>generate_embedding\<close>. The argument is \<open>None\<close> for a \<open>NULL\<close> column; \<open>not text\<close> holds for
  \<open>None\<close> and for the empty string. \<open>except Exception\<close> replaces every exception of the
  \<open>try\<close> block by the zero vector.
\<close>

definition generate_embedding ::
  "'w requests_post \<Rightarrow> string \<Rightarrow> unicode option \<Rightarrow> 'w \<Rightarrow> json \<times> 'w" where
  "generate_embedding post azure_openai_key text w =
     (case text of
        None \<Rightarrow> (zero_vector, w)
      | Some t \<Rightarrow>
          if t = [] \<or> py_strip t = [] then (zero_vector, w)
          else (case embedding_request post azure_openai_key t w of
                  (Inr embedding, w') \<Rightarrow> (embedding, w')
                | (Inl ex, w') \<Rightarrow> (zero_vector, w')))"

text \<open>
  A call of the service has failed when \<open>requests.post\<close> raised, or the response has an
  error status, or its body is not JSON, or the body has no embedding at the expected
  place.
\<close>

definition call_failed :: "request_exception + response \<Rightarrow> bool" where
  "call_failed out =
     (case out of
        Inl ex \<Rightarrow> True
      | Inr r \<Rightarrow> (400 \<le> status_code r \<and> status_code r < 600) \<or> body_json r = None \<or>
                 isl (response_embedding r))"

text \<open>
  Services for concrete runs; the world counts the calls. One times out, one answers 429,
  one answers 200 with a one-dimensional embedding.
\<close>

definition timeout_service :: "nat requests_post" where
  "timeout_service w url hdrs pl tmo = (Inl Timeout, Suc w)"

definition rate_limited_service :: "nat requests_post" where
  "rate_limited_service w url hdrs pl tmo =
     (Inr \<lparr>status_code = 429, body_json = Some (JObject [(''error'', JString ''rate limit'')])\<rparr>,
      Suc w)"

definition good_service :: "nat requests_post" where
  "good_service w url hdrs pl tmo =
     (Inr \<lparr>status_code = 200,
           body_json = Some (JObject [(''data'',
             JArray [JObject [(''embedding'', JArray [JNumber 1])]])])\<rparr>,
      Suc w)"

section \<open>Graph load (the write calls of the ETL notebooks)\<close>

text \<open>
  Modelled from the spec: the graph database and the connector behind
  \<open>DataFrame.write.format("org.neo4j.spark.DataSource")\<close> are not part of the repository;
  the notebooks only configure the write. The model follows the specification's data
  model and keyed upsert write API: a node has a label and properties and is identified
  by the values of its key fields; a relationship has a type, source and target labels and
  keys, and properties, and is identified by type, source key and target key.
\<close>

record 'v node =
  n_label :: string
  n_props :: "string \<rightharpoonup> 'v"

record 'v relationship =
  r_type :: string
  r_source_label :: string
  r_source_key :: 'v
  r_target_label :: string
  r_target_key :: 'v
  r_props :: "string \<rightharpoonup> 'v"

record 'v graph =
  g_nodes :: "'v node list"
  g_relationships :: "'v relationship list"

text \<open>
  Modelled from the spec: an upsert creates the item if its key is absent and otherwise
  updates it in place. Every item that matches is updated where it stands; if none
  matches, the created item goes to the end.
\<close>

definition keyed_upsert :: "('a \<Rightarrow> bool) \<Rightarrow> ('a \<Rightarrow> 'a) \<Rightarrow> 'a \<Rightarrow> 'a list \<Rightarrow> 'a list" where
  "keyed_upsert matches update created xs =
     (if list_ex matches xs then map (\<lambda>x. if matches x then update x else x) xs
      else xs @ [created])"

text \<open>The key of a record, and the nodes that match a label and a key.\<close>

definition key_of :: "string list \<Rightarrow> (string \<rightharpoonup> 'v) \<Rightarrow> 'v option list" where
  "key_of ks m = map m ks"

definition node_matches :: "string \<Rightarrow> string list \<Rightarrow> 'v option list \<Rightarrow> 'v node \<Rightarrow> bool" where
  "node_matches label ks key n = (n_label n = label \<and> key_of ks (n_props n) = key)"

text \<open>
  Modelled from the spec: the node write \<open>write(label, keyFields, properties)\<close>, which the
  repository does not contain. A node matches a record when it has the label and the
  record's values of the key fields (an absent key field is compared like any other
  value); the update gives the node the record's properties, the latest property values.
\<close>

definition upsert_node ::
  "string \<Rightarrow> string list \<Rightarrow> (string \<rightharpoonup> 'v) \<Rightarrow> 'v node list \<Rightarrow> 'v node list" where
  "upsert_node label ks row ns =
     keyed_upsert (node_matches label ks (key_of ks row)) (\<lambda>n. n\<lparr>n_props := row\<rparr>)
       \<lparr>n_label = label, n_props = row\<rparr> ns"

definition write_nodes ::
  "string \<Rightarrow> string list \<Rightarrow> (string \<rightharpoonup> 'v) list \<Rightarrow> 'v graph \<Rightarrow> 'v graph" where
  "write_nodes label ks rows g =
     g\<lparr>g_nodes := foldl (\<lambda>ns row. upsert_node label ks row ns) (g_nodes g) rows\<rparr>"

text \<open>The relationships with a type and keys, and the existence of an end node.\<close>

definition rel_matches :: "string \<Rightarrow> 'v \<Rightarrow> 'v \<Rightarrow> 'v relationship \<Rightarrow> bool" where
  "rel_matches rtype sk tk r = (r_type r = rtype \<and> r_source_key r = sk \<and> r_target_key r = tk)"

definition node_exists :: "string \<Rightarrow> string \<Rightarrow> 'v \<Rightarrow> 'v node list \<Rightarrow> bool" where
  "node_exists label k v ns = list_ex (\<lambda>n. n_label n = label \<and> n_props n k = Some v) ns"

text \<open>
  Modelled from the spec: the relationship write
  \<open>write(type, sourceLabel, sourceKey, targetLabel, targetKey, properties)\<close>, which the
  repository does not contain. The source and target nodes are matched by label and key
  and must exist, otherwise nothing is written for the row; a relationship with the same
  type, source key and target key is updated in place with the row's properties, and
  created if there is none.
\<close>

definition upsert_relationship ::
  "string \<Rightarrow> string \<Rightarrow> string \<Rightarrow> 'v \<Rightarrow> string \<Rightarrow> string \<Rightarrow> 'v \<Rightarrow> (string \<rightharpoonup> 'v)
     \<Rightarrow> 'v graph \<Rightarrow> 'v graph" where
  "upsert_relationship rtype slabel skey sk tlabel tkey tk props g =
     (if \<not> (node_exists slabel skey sk (g_nodes g) \<and> node_exists tlabel tkey tk (g_nodes g))
      then g
      else g\<lparr>g_relationships :=
               keyed_upsert (rel_matches rtype sk tk) (\<lambda>r. r\<lparr>r_props := props\<rparr>)
                 \<lparr>r_type = rtype, r_source_label = slabel, r_source_key = sk,
                  r_target_label = tlabel, r_target_key = tk, r_props = props\<rparr>
                 (g_relationships g)\<rparr>)"

text \<open>
  A row of a relationship DataFrame names its columns \<open>source.id\<close>, \<open>target.id\<close> and
  \<open>rel.<property>\<close>. A row without a source or target id addresses no relationship.
\<close>

definition rel_props :: "(string \<rightharpoonup> 'v) \<Rightarrow> (string \<rightharpoonup> 'v)" where
  "rel_props row = (\<lambda>k. row (''rel.'' @ k))"

definition rel_row_key :: "(string \<rightharpoonup> 'v) \<Rightarrow> ('v \<times> 'v) option" where
  "rel_row_key row =
     (case (row ''source.id'', row ''target.id'') of
        (Some sk, Some tk) \<Rightarrow> Some (sk, tk)
      | _ \<Rightarrow> None)"

definition write_relationship_row ::
  "string \<Rightarrow> string \<Rightarrow> string \<Rightarrow> string \<Rightarrow> string \<Rightarrow> (string \<rightharpoonup> 'v) \<Rightarrow> 'v graph \<Rightarrow> 'v graph" where
  "write_relationship_row rtype slabel skey tlabel tkey row g =
     (case rel_row_key row of
        Some (sk, tk) \<Rightarrow> upsert_relationship rtype slabel skey sk tlabel tkey tk (rel_props row) g
      | None \<Rightarrow> g)"

definition write_relationships ::
  "string \<Rightarrow> string \<Rightarrow> string \<Rightarrow> string \<Rightarrow> string \<Rightarrow> (string \<rightharpoonup> 'v) list \<Rightarrow> 'v graph \<Rightarrow> 'v graph" where
  "write_relationships rtype slabel skey tlabel tkey rows g =
     foldl (\<lambda>g row. write_relationship_row rtype slabel skey tlabel tkey row g) g rows"

text \<open>
  The three write calls of the notebooks. Each passes \<open>mode("Overwrite")\<close>; the node writes
  pass \<open>labels\<close> \<open>:Patient\<close> with \<open>node.keys\<close> \<open>id,mrn\<close> and \<open>:Medication\<close> with \<open>id,rxNormCode\<close>;
  the relationship write passes \<open>PRESCRIBED\<close>, the save strategy \<open>keys\<close>, and source and
  target labels \<open>:Patient\<close> and \<open>:Medication\<close> matched on \<open>source.id:id\<close> and \<open>target.id:id\<close>.
  None of them reads \<open>INCREMENTAL_MODE\<close>.
\<close>

definition patients_neo4j_write :: "(string \<rightharpoonup> 'v) list \<Rightarrow> 'v graph \<Rightarrow> 'v graph" where
  "patients_neo4j_write rows g = write_nodes ''Patient'' [''id'', ''mrn''] rows g"

definition medications_neo4j_write :: "(string \<rightharpoonup> 'v) list \<Rightarrow> 'v graph \<Rightarrow> 'v graph" where
  "medications_neo4j_write rows g = write_nodes ''Medication'' [''id'', ''rxNormCode''] rows g"

definition prescriptions_neo4j_write :: "(string \<rightharpoonup> 'v) list \<Rightarrow> 'v graph \<Rightarrow> 'v graph" where
  "prescriptions_neo4j_write rows g =
     write_relationships ''PRESCRIBED'' ''Patient'' ''id'' ''Medication'' ''id'' rows g"

subsection \<open>What a keyed upsert write must do\<close>

text \<open>
  Views of a graph used to state the properties: the label and key of a node, the keys of
  the nodes with a label, the nodes with a given key, and the nodes a batch does not
  address; likewise for relationships.
\<close>

definition node_id :: "string list \<Rightarrow> 'v node \<Rightarrow> string \<times> 'v option list" where
  "node_id ks n = (n_label n, key_of ks (n_props n))"

definition node_keys :: "string \<Rightarrow> string list \<Rightarrow> 'v node list \<Rightarrow> 'v option list list" where
  "node_keys label ks ns = map (\<lambda>n. key_of ks (n_props n)) (filter (\<lambda>n. n_label n = label) ns)"

definition nodes_with_key :: "string \<Rightarrow> string list \<Rightarrow> 'v option list \<Rightarrow> 'v graph \<Rightarrow> 'v node list" where
  "nodes_with_key label ks key g = filter (node_matches label ks key) (g_nodes g)"

definition other_nodes ::
  "string \<Rightarrow> string list \<Rightarrow> (string \<rightharpoonup> 'v) list \<Rightarrow> 'v graph \<Rightarrow> 'v node list" where
  "other_nodes label ks rows g =
     filter (\<lambda>n. \<not> (n_label n = label \<and> key_of ks (n_props n) \<in> set (map (key_of ks) rows)))
       (g_nodes g)"

definition rel_id :: "'v relationship \<Rightarrow> string \<times> 'v \<times> 'v" where
  "rel_id r = (r_type r, r_source_key r, r_target_key r)"

definition rel_keys :: "string \<Rightarrow> 'v relationship list \<Rightarrow> ('v \<times> 'v) list" where
  "rel_keys rtype rs = map (\<lambda>r. (r_source_key r, r_target_key r)) (filter (\<lambda>r. r_type r = rtype) rs)"

definition relationships_with_key :: "string \<Rightarrow> 'v \<Rightarrow> 'v \<Rightarrow> 'v graph \<Rightarrow> 'v relationship list" where
  "relationships_with_key rtype sk tk g = filter (rel_matches rtype sk tk) (g_relationships g)"

definition other_relationships ::
  "string \<Rightarrow> (string \<rightharpoonup> 'v) list \<Rightarrow> 'v graph \<Rightarrow> 'v relationship list" where
  "other_relationships rtype rows g =
     filter (\<lambda>r. \<not> (r_type r = rtype \<and>
                    Some (r_source_key r, r_target_key r) \<in> set (map rel_row_key rows)))
       (g_relationships g)"

text \<open>The loop of \<open>write_nodes\<close> over the rows of a batch.\<close>

abbreviation (input) fold_nodes where
  "fold_nodes label ks rows ns \<equiv> foldl (\<lambda>ns row. upsert_node label ks row ns) ns rows"

text \<open>
  A node write \<open>wr\<close> for a label and key fields is a keyed upsert when, for every batch and
  graph: the nodes that were there keep their place, label and key; the nodes the batch
  does not address, and all relationships, are unchanged; a graph without duplicate keys
  stays without duplicate keys; after a batch, the key of a record \<open>r\<close> that no later record
  of the batch shares has exactly one node, and its properties are those of \<open>r\<close>; and two
  loads one after the other are the load of the two batches in a row.
\<close>

definition node_upsert_contract ::
  "string \<Rightarrow> string list \<Rightarrow> ((string \<rightharpoonup> 'v) list \<Rightarrow> 'v graph \<Rightarrow> 'v graph) \<Rightarrow> bool" where
  "node_upsert_contract label ks wr =
     (\<forall>rows rows1 r rows2 g.
        take (length (g_nodes g)) (map (node_id ks) (g_nodes (wr rows g))) =
          map (node_id ks) (g_nodes g) \<and>
        other_nodes label ks rows (wr rows g) = other_nodes label ks rows g \<and>
        g_relationships (wr rows g) = g_relationships g \<and>
        (distinct (node_keys label ks (g_nodes g)) \<longrightarrow>
           distinct (node_keys label ks (g_nodes (wr rows g)))) \<and>
        (distinct (node_keys label ks (g_nodes g)) \<and>
         list_all (\<lambda>r'. key_of ks r' \<noteq> key_of ks r) rows2 \<longrightarrow>
           map n_props (nodes_with_key label ks (key_of ks r) (wr (rows1 @ r # rows2) g)) = [r]) \<and>
        wr rows2 (wr rows1 g) = wr (rows1 @ rows2) g)"

text \<open>
  The same for a relationship write; in addition nodes are never changed, and no
  relationship is created or changed for a key whose source or target node is missing.
\<close>

definition relationship_upsert_contract ::
  "string \<Rightarrow> string \<Rightarrow> string \<Rightarrow> string \<Rightarrow> string
     \<Rightarrow> ((string \<rightharpoonup> 'v) list \<Rightarrow> 'v graph \<Rightarrow> 'v graph) \<Rightarrow> bool" where
  "relationship_upsert_contract rtype slabel skey tlabel tkey wr =
     (\<forall>rows rows1 p rows2 sk tk g.
        g_nodes (wr rows g) = g_nodes g \<and>
        take (length (g_relationships g)) (map rel_id (g_relationships (wr rows g))) =
          map rel_id (g_relationships g) \<and>
        other_relationships rtype rows (wr rows g) = other_relationships rtype rows g \<and>
        (distinct (rel_keys rtype (g_relationships g)) \<longrightarrow>
           distinct (rel_keys rtype (g_relationships (wr rows g)))) \<and>
        (distinct (rel_keys rtype (g_relationships g)) \<and> rel_row_key p = Some (sk, tk) \<and>
         node_exists slabel skey sk (g_nodes g) \<and> node_exists tlabel tkey tk (g_nodes g) \<and>
         list_all (\<lambda>p'. rel_row_key p' \<noteq> Some (sk, tk)) rows2 \<longrightarrow>
           map r_props (relationships_with_key rtype sk tk (wr (rows1 @ p # rows2) g)) =
             [rel_props p]) \<and>
        (\<not> (node_exists slabel skey sk (g_nodes g) \<and> node_exists tlabel tkey tk (g_nodes g)) \<longrightarrow>
           relationships_with_key rtype sk tk (wr rows g) = relationships_with_key rtype sk tk g) \<and>
        wr rows2 (wr rows1 g) = wr (rows1 @ rows2) g)"

text \<open>Rows and a graph for concrete loads.\<close>

definition patient_row :: "string \<Rightarrow> string \<rightharpoonup> string" where
  "patient_row city = [''id'' \<mapsto> ''P1'', ''mrn'' \<mapsto> ''M1'', ''city'' \<mapsto> city]"

definition patient_row_no_city :: "string \<rightharpoonup> string" where
  "patient_row_no_city = [''id'' \<mapsto> ''P1'', ''mrn'' \<mapsto> ''M1'']"

definition prescription_row :: "string \<Rightarrow> string \<rightharpoonup> string" where
  "prescription_row dosage =
     [''source.id'' \<mapsto> ''P1'', ''target.id'' \<mapsto> ''D1'', ''rel.dosage'' \<mapsto> dosage]"

definition example_graph :: "string graph" where
  "example_graph =
     \<lparr>g_nodes = [\<lparr>n_label = ''Patient'', n_props = [''id'' \<mapsto> ''P0'', ''mrn'' \<mapsto> ''M0'']\<rparr>,
                 \<lparr>n_label = ''Patient'', n_props = [''id'' \<mapsto> ''P1'', ''mrn'' \<mapsto> ''M1'']\<rparr>,
                 \<lparr>n_label = ''Medication'', n_props = [''id'' \<mapsto> ''D1'']\<rparr>],
      g_relationships = []\<rparr>"

section \<open>Properties of the orchestration\<close>

lemma parallel_branch_eq_sequential_branch:
  "parallel_branch e stage_name nbs results all_success w =
   sequential_branch e stage_name nbs results all_success w"
  by (induction nbs arbitrary: results all_success w) (auto simp: Let_def split: prod.splits)

lemma sequential_branch_step:
  "sequential_branch e stage_name (nb # rest) results all_success w =
     (case attempt e nb w of
        (r, w') \<Rightarrow>
          if \<not> ur_success r then
            (if stage_name = ''stage_1_entities'' then ((False, results @ [r]), w')
             else sequential_branch e stage_name rest (results @ [r]) False w')
          else sequential_branch e stage_name rest (results @ [r]) all_success w')"
  by (auto simp add: attempt_def unit_entry_def Let_def split: prod.splits)

lemma sequential_branch_noncritical:
  "stage_name \<noteq> ''stage_1_entities'' \<Longrightarrow>
   sequential_branch e stage_name nbs results all_success w =
     ((all_success \<and> list_all ur_success (fst (attempt_all e nbs w)),
       results @ fst (attempt_all e nbs w)), snd (attempt_all e nbs w))"
proof (induction nbs arbitrary: results all_success w)
  case Nil
  then show ?case by simp
next
  case (Cons nb rest)
  show ?case
    unfolding sequential_branch_step
    by (auto simp: Cons split: prod.splits)
qed

lemma sequential_branch_prefix_ok:
  "list_all ur_success (fst (attempt_all e pre w)) \<Longrightarrow>
   sequential_branch e stage_name (pre @ rest) results all_success w =
   sequential_branch e stage_name rest (results @ fst (attempt_all e pre w)) all_success
     (snd (attempt_all e pre w))"
proof (induction pre arbitrary: results w)
  case Nil
  then show ?case by simp
next
  case (Cons nb pre)
  obtain r w1 where a: "attempt e nb w = (r, w1)" by (cases "attempt e nb w")
  obtain rs w2 where b: "attempt_all e pre w1 = (rs, w2)" by (cases "attempt_all e pre w1")
  from Cons.prems a b have ok: "ur_success r" "list_all ur_success rs" by simp_all
  have "sequential_branch e stage_name ((nb # pre) @ rest) results all_success w =
        sequential_branch e stage_name (pre @ rest) (results @ [r]) all_success w1"
    using a ok by (simp add: sequential_branch_step del: sequential_branch.simps)
  also have "\<dots> = sequential_branch e stage_name rest ((results @ [r]) @ rs) all_success w2"
    using Cons.IH [of w1 "results @ [r]"] b ok by simp
  finally show ?case using a b by simp
qed

lemma sequential_branch_sound:
  "sequential_branch e stage_name nbs results all_success w = ((ok, rs), w') \<Longrightarrow>
   all_success = list_all ur_success results \<Longrightarrow> ok = list_all ur_success rs"
proof (induction nbs arbitrary: results all_success w)
  case Nil
  then show ?case by auto
next
  case (Cons nb rest)
  obtain r w1 where a: "attempt e nb w = (r, w1)" by (cases "attempt e nb w")
  show ?case
  proof (cases "ur_success r")
    case True
    with Cons.prems a
    have "sequential_branch e stage_name rest (results @ [r]) all_success w1 = ((ok, rs), w')"
      by (simp add: sequential_branch_step del: sequential_branch.simps)
    moreover have "all_success = list_all ur_success (results @ [r])"
      using True Cons.prems(2) by simp
    ultimately show ?thesis by (rule Cons.IH)
  next
    case False
    show ?thesis
    proof (cases "stage_name = ''stage_1_entities''")
      case True
      with False Cons.prems a show ?thesis
        by (auto simp add: sequential_branch_step simp del: sequential_branch.simps)
    next
      case ncrit: False
      with False Cons.prems a
      have "sequential_branch e stage_name rest (results @ [r]) False w1 = ((ok, rs), w')"
        by (simp add: sequential_branch_step del: sequential_branch.simps)
      moreover have "False = list_all ur_success (results @ [r])"
        using False by simp
      ultimately show ?thesis by (rule Cons.IH)
    qed
  qed
qed

lemma run_stage_sequential:
  "run_stage e g stage_name stage_config w =
   sequential_branch e stage_name (notebooks stage_config) [] True w"
  by (simp add: run_stage_def parallel_branch_eq_sequential_branch)

lemma run_stage_sound:
  "run_stage e g stage_name stage_config w = ((ok, rs), w') \<Longrightarrow> ok = list_all ur_success rs"
  unfolding run_stage_sequential by (erule sequential_branch_sound) simp

lemma set_dict_set: "set (dict_set d k v) \<subseteq> insert (k, v) (set d)"
  by (induction d) (auto split: if_splits)

lemma dict_set_mem: "(k, v) \<in> set (dict_set d k v)"
  by (induction d) auto

lemma pipeline_loop_inv:
  "pipeline_loop e g stages pr ok w = ((pr', ok'), w') \<Longrightarrow> ok \<Longrightarrow>
   list_all (\<lambda>s. sr_success s \<and> stage_consistent s) (dict_values pr) \<Longrightarrow>
   list_all stage_consistent (dict_values pr') \<and> ok' = list_all sr_success (dict_values pr')"
proof (induction stages arbitrary: pr w)
  case Nil
  then show ?case by (auto simp: list_all_iff)
next
  case (Cons st rest)
  obtain stage_name cfg where st: "st = (stage_name, cfg)" by (cases st)
  obtain s rs w1 where r: "run_stage e g stage_name cfg w = ((s, rs), w1)"
    by (cases "run_stage e g stage_name cfg w") auto
  let ?v = "\<lparr>sr_success = s, sr_results = rs\<rparr>"
  have cons: "stage_consistent ?v"
    using run_stage_sound [OF r] by (simp add: stage_consistent_def)
  have old: "\<forall>x \<in> set (dict_set pr stage_name ?v). x = (stage_name, ?v) \<or> x \<in> set pr"
    using set_dict_set [of pr stage_name ?v] by auto
  show ?case
  proof (cases s)
    case True
    have "list_all (\<lambda>s. sr_success s \<and> stage_consistent s)
            (dict_values (dict_set pr stage_name ?v))"
      using old cons True Cons.prems(3) by (fastforce simp: list_all_iff dict_values_def)
    moreover have "pipeline_loop e g rest (dict_set pr stage_name ?v) ok w1 = ((pr', ok'), w')"
      using Cons.prems(1) st r True by simp
    ultimately show ?thesis using Cons.IH Cons.prems(2) by blast
  next
    case False
    have eq: "pr' = dict_set pr stage_name ?v" "ok' = False"
      using Cons.prems(1) st r False by simp_all
    have "list_all stage_consistent (dict_values pr')"
      using old cons Cons.prems(3) unfolding eq by (fastforce simp: list_all_iff dict_values_def)
    moreover have "\<not> list_all sr_success (dict_values pr')"
      using dict_set_mem [of stage_name ?v pr] False unfolding eq
      by (force simp: list_all_iff dict_values_def)
    ultimately show ?thesis using eq by simp
  qed
qed

lemma sum_succeeded_failed:
  "sum_list (map (\<lambda>s. length (filter ur_success (sr_results s))) ss) +
   sum_list (map (\<lambda>s. length (filter (\<lambda>nb. \<not> ur_success nb) (sr_results s))) ss) =
   sum_list (map (\<lambda>s. length (sr_results s)) ss)"
proof (induction ss)
  case Nil
  then show ?case by simp
next
  case (Cons a ss)
  have "length (filter ur_success (sr_results a)) +
        length (filter (\<lambda>nb. \<not> ur_success nb) (sr_results a)) = length (sr_results a)"
    by (rule sum_length_filter_compl)
  with Cons show ?case by simp
qed

lemma failed_zero_iff:
  "(sum_list (map (\<lambda>s. length (filter (\<lambda>nb. \<not> ur_success nb) (sr_results s))) ss) = 0) =
   list_all ur_success (concat (map sr_results ss))"
  by (induction ss) (auto simp: list_all_iff filter_empty_conv)

lemma consistent_all_success:
  "list_all stage_consistent ss \<Longrightarrow>
   list_all sr_success ss = list_all ur_success (concat (map sr_results ss))"
  by (induction ss) (auto simp: stage_consistent_def)

text \<open>
  Claim C10. For every environment, configuration, list of stages and world, the metadata
  of the run satisfies \<open>notebooks_succeeded + notebooks_failed = notebooks_executed\<close>; the
  status is \<open>success\<close> exactly when every recorded unit result has \<open>success = True\<close>, and
  exactly when \<open>notebooks_failed = 0\<close>.
\<close>

theorem run_metadata_counts:
  "(let md = run_metadata (run_pipeline e g stages w) in
      md_notebooks_succeeded md + md_notebooks_failed md = md_notebooks_executed md \<and>
      (md_status md = ''success'') =
        list_all ur_success (concat (map sr_results (dict_values (md_detailed_results md)))) \<and>
      (md_status md = ''success'') = (md_notebooks_failed md = 0))"
proof -
  obtain pr ok w' where l: "pipeline_loop e g stages [] True w = ((pr, ok), w')"
    by (cases "pipeline_loop e g stages [] True w") auto
  have inv: "list_all stage_consistent (dict_values pr)" "ok = list_all sr_success (dict_values pr)"
    using pipeline_loop_inv [OF l] by (simp_all add: dict_values_def)
  have md: "run_metadata (run_pipeline e g stages w) =
            build_etl_metadata g (datetime_now e w) (datetime_now e w') pr ok"
    by (simp add: run_pipeline_def l Let_def)
  have st: "(md_status (build_etl_metadata g a b pr ok) = ''success'') = ok" for a b
    by (simp add: build_etl_metadata_def)
  show ?thesis
    unfolding md Let_def st
    using inv consistent_all_success [OF inv(1)]
    by (simp add: build_etl_metadata_def sum_succeeded_failed failed_zero_iff
          del: sum_list_eq_0_iff)
qed

text \<open>
  Claim C9. For every stage name, stage configuration, configuration record, environment
  and world, the branch of \<open>run_stage\<close> taken when the stage's \<open>parallel\<close> flag and
  \<open>PARALLEL_EXECUTION\<close> are both true returns the same success flag, the same results and
  the same world as the sequential branch: it runs the notebooks one at a time in declared
  order and stops at the first failure of the stage named \<open>stage_1_entities\<close>. So
  \<open>run_stage\<close> is the sequential loop whatever the two flags say.
\<close>

theorem run_stage_parallel_flag_no_effect:
  "parallel_branch e stage_name (notebooks stage_config) [] True w =
     sequential_branch e stage_name (notebooks stage_config) [] True w \<and>
   run_stage e g stage_name stage_config w =
     sequential_branch e stage_name (notebooks stage_config) [] True w \<and>
   run_stage e (g\<lparr>PARALLEL_EXECUTION := True\<rparr>) stage_name stage_config w =
     run_stage e (g\<lparr>PARALLEL_EXECUTION := False\<rparr>) stage_name stage_config w"
  by (simp add: run_stage_def parallel_branch_eq_sequential_branch)

lemma pipeline_loop_failed_stage:
  "run_stage e g stage_name cfg w = ((False, rs), w') \<Longrightarrow>
   pipeline_loop e g ((stage_name, cfg) # later) pr ok w =
     ((dict_set pr stage_name \<lparr>sr_success = False, sr_results = rs\<rparr>, False), w')"
  by simp

lemma run_pipeline_failed_stage:
  assumes "run_stage e g stage_name cfg w = ((False, rs), w')"
  shows "run_world (run_pipeline e g ((stage_name, cfg) # later) w) = w' \<and>
         md_status (run_metadata (run_pipeline e g ((stage_name, cfg) # later) w)) = ''failed'' \<and>
         md_detailed_results (run_metadata (run_pipeline e g ((stage_name, cfg) # later) w)) =
           [(stage_name, \<lparr>sr_success = False, sr_results = rs\<rparr>)]"
  using assms by (simp add: run_pipeline_def Let_def build_etl_metadata_def)

lemma critical_stage_stops:
  assumes nbs: "notebooks cfg = pre @ a # post"
    and pre: "attempt_all e pre w = (rs, w1)" "list_all ur_success rs"
    and a: "attempt e a w1 = (r, w2)" "\<not> ur_success r"
  shows "run_stage e g ''stage_1_entities'' cfg w = ((False, rs @ [r]), w2)"
proof -
  have "run_stage e g ''stage_1_entities'' cfg w =
        sequential_branch e ''stage_1_entities'' (a # post) ([] @ rs) True w1"
    unfolding run_stage_sequential nbs
    using sequential_branch_prefix_ok [of e pre w "''stage_1_entities''" "a # post" "[]" True] pre
    by simp
  also have "\<dots> = ((False, rs @ [r]), w2)"
    using a by (simp add: sequential_branch_step del: sequential_branch.simps)
  finally show ?thesis .
qed

text \<open>
  Claim C2. The critical stage is the one named \<open>stage_1_entities\<close>. If its notebooks are
  \<open>pre @ a # post\<close>, every notebook of \<open>pre\<close> succeeds and \<open>a\<close> fails, then \<open>run_stage\<close>
  returns failure with one entry for each notebook of \<open>pre\<close> and one for \<open>a\<close>, and the world
  is the one the call of \<open>a\<close> left: no notebook of \<open>post\<close> is run, and none has an entry
  in the results, which is how the run records a unit as not attempted. The pipeline loop
  records the failed stage and stops there: the run is failed, the world is still the one
  \<open>a\<close> left, so no later stage is started.
\<close>

theorem critical_stage_fail_fast:
  assumes "notebooks cfg = pre @ a # post"
    and "attempt_all e pre w = (rs, w1)" and "list_all ur_success rs"
    and "attempt e a w1 = (r, w2)" and "\<not> ur_success r"
  shows "run_stage e g ''stage_1_entities'' cfg w = ((False, rs @ [r]), w2) \<and>
         pipeline_loop e g ((''stage_1_entities'', cfg) # later) pr ok w =
           ((dict_set pr ''stage_1_entities'' \<lparr>sr_success = False, sr_results = rs @ [r]\<rparr>,
             False), w2) \<and>
         run_world (run_pipeline e g ((''stage_1_entities'', cfg) # later) w) = w2 \<and>
         md_status (run_metadata (run_pipeline e g ((''stage_1_entities'', cfg) # later) w)) =
           ''failed'' \<and>
         md_detailed_results
             (run_metadata (run_pipeline e g ((''stage_1_entities'', cfg) # later) w)) =
           [(''stage_1_entities'', \<lparr>sr_success = False, sr_results = rs @ [r]\<rparr>)]"
  using critical_stage_stops [OF assms]
        pipeline_loop_failed_stage [OF critical_stage_stops [OF assms]]
        run_pipeline_failed_stage [OF critical_stage_stops [OF assms]]
  by blast

lemma noncritical_stage_runs_all:
  assumes "stage_name \<noteq> ''stage_1_entities''"
    and "attempt_all e (notebooks cfg) w = (rs, w')"
  shows "run_stage e g stage_name cfg w = ((list_all ur_success rs, rs), w')"
  unfolding run_stage_sequential
  using sequential_branch_noncritical [OF assms(1), of e "notebooks cfg" "[]" True w] assms(2)
  by simp

lemma pipeline_loop_append:
  "pipeline_loop e g before pr ok w = ((pr1, True), w1) \<Longrightarrow>
   pipeline_loop e g (before @ rest) pr ok w = pipeline_loop e g rest pr1 True w1"
proof (induction before arbitrary: pr w)
  case Nil
  then show ?case by simp
next
  case (Cons st before)
  obtain stage_name cfg where st: "st = (stage_name, cfg)" by (cases st)
  obtain s rs w2 where r: "run_stage e g stage_name cfg w = ((s, rs), w2)"
    by (cases "run_stage e g stage_name cfg w") auto
  have s: s
  proof (rule ccontr)
    assume "\<not> s"
    with Cons.prems st r show False by simp
  qed
  let ?pr = "dict_set pr stage_name \<lparr>sr_success = s, sr_results = rs\<rparr>"
  have "pipeline_loop e g before ?pr ok w2 = ((pr1, True), w1)"
    using Cons.prems st r s by simp
  then have "pipeline_loop e g (before @ rest) ?pr ok w2 = pipeline_loop e g rest pr1 True w1"
    by (rule Cons.IH)
  then show ?case using st r s by simp
qed

text \<open>
  Claim C1, as amended. Let the stages before a stage all succeed, and let the stage,
  whose name is not \<open>stage_1_entities\<close>, have a failing unit. The failure does not stop
  the stage: every notebook of the stage is attempted in order and has an entry in the
  results. The stage is then failed, the pipeline loop records it and stops without
  starting any later stage, and the run is failed: its status is \<open>failed\<close>, it announces no
  timestamp and it ends by raising.
\<close>

theorem noncritical_failure_stops_pipeline:
  assumes "stage_name \<noteq> ''stage_1_entities''"
    and "pipeline_loop e g before [] True w = ((pr1, True), w1)"
    and "attempt_all e (notebooks cfg) w1 = (rs, w')"
    and "\<not> list_all ur_success rs"
  shows "run_stage e g stage_name cfg w1 = ((False, rs), w') \<and>
         pipeline_loop e g ((stage_name, cfg) # later) pr ok w1 =
           ((dict_set pr stage_name \<lparr>sr_success = False, sr_results = rs\<rparr>, False), w') \<and>
         pipeline_loop e g (before @ (stage_name, cfg) # later) [] True w =
           ((dict_set pr1 stage_name \<lparr>sr_success = False, sr_results = rs\<rparr>, False), w') \<and>
         run_world (run_pipeline e g (before @ (stage_name, cfg) # later) w) = w' \<and>
         md_status (run_metadata (run_pipeline e g (before @ (stage_name, cfg) # later) w)) =
           ''failed'' \<and>
         md_detailed_results
             (run_metadata (run_pipeline e g (before @ (stage_name, cfg) # later) w)) =
           dict_set pr1 stage_name \<lparr>sr_success = False, sr_results = rs\<rparr> \<and>
         run_next_timestamp (run_pipeline e g (before @ (stage_name, cfg) # later) w) = None \<and>
         isl (run_exit (run_pipeline e g (before @ (stage_name, cfg) # later) w))"
proof -
  have r: "run_stage e g stage_name cfg w1 = ((False, rs), w')"
    using noncritical_stage_runs_all [OF assms(1,3)] assms(4) by simp
  have l: "pipeline_loop e g (before @ (stage_name, cfg) # later) [] True w =
           ((dict_set pr1 stage_name \<lparr>sr_success = False, sr_results = rs\<rparr>, False), w')"
    using pipeline_loop_append [OF assms(2), of "(stage_name, cfg) # later"]
          pipeline_loop_failed_stage [OF r, of later pr1 True]
    by simp
  show ?thesis
    using r l pipeline_loop_failed_stage [OF r, of later pr ok]
    by (simp add: run_pipeline_def Let_def build_etl_metadata_def)
qed

lemmas run_eval =
  scripted_env_def run_notebook_with_logging_def attempt_def unit_entry_def Let_def
  run_stage_def run_pipeline_def build_etl_metadata_def dict_values_def
  unit_abc_def stage_abc_def etl_pipeline_def etl_pipeline_with_validation_def
  notebook_parameters_def str_bool_def default_globals_def

theorem critical_stage_fail_fast_witness:
  "notebooks stage_abc = [unit_abc ''A''] @ unit_abc ''B'' # [unit_abc ''C''] \<and>
   attempt_all (scripted_env [''B'']) [unit_abc ''A''] [] =
     ([\<lparr>ur_notebook = ''A'', ur_success = True, ur_duration = 1,
         ur_result = \<lparr>rr_result = Some ''done'', rr_error = None\<rparr>\<rparr>], [''A'']) \<and>
   attempt (scripted_env [''B'']) (unit_abc ''B'') [''A''] =
     (\<lparr>ur_notebook = ''B'', ur_success = False, ur_duration = 1,
        ur_result = \<lparr>rr_result = None, rr_error = Some ''boom''\<rparr>\<rparr>, [''A'', ''B'']) \<and>
   run_stage (scripted_env [''B'']) (default_globals ''r1'') ''stage_1_entities'' stage_abc [] =
     ((False,
       [\<lparr>ur_notebook = ''A'', ur_success = True, ur_duration = 1,
          ur_result = \<lparr>rr_result = Some ''done'', rr_error = None\<rparr>\<rparr>,
        \<lparr>ur_notebook = ''B'', ur_success = False, ur_duration = 1,
          ur_result = \<lparr>rr_result = None, rr_error = Some ''boom''\<rparr>\<rparr>]),
      [''A'', ''B'']) \<and>
   run_world (run_pipeline (scripted_env [''B'']) (default_globals ''r1'')
     [(''stage_1_entities'', stage_abc), (''stage_2_relationships'', stage_abc)] []) = [''A'', ''B''] \<and>
   md_status (run_metadata (run_pipeline (scripted_env [''B'']) (default_globals ''r1'')
     [(''stage_1_entities'', stage_abc), (''stage_2_relationships'', stage_abc)] [])) = ''failed''"
  using critical_stage_fail_fast [of stage_abc "[unit_abc ''A'']" "unit_abc ''B''"
      "[unit_abc ''C'']" "scripted_env [''B'']" "[]"
      "[\<lparr>ur_notebook = ''A'', ur_success = True, ur_duration = 1,
          ur_result = \<lparr>rr_result = Some ''done'', rr_error = None\<rparr>\<rparr>]" "[''A'']"
      "\<lparr>ur_notebook = ''B'', ur_success = False, ur_duration = 1,
          ur_result = \<lparr>rr_result = None, rr_error = Some ''boom''\<rparr>\<rparr>" "[''A'', ''B'']"
      "default_globals ''r1''" "[(''stage_2_relationships'', stage_abc)]" "[]" True]
  by (simp add: scripted_env_def run_notebook_with_logging_def attempt_def unit_entry_def
        unit_abc_def stage_abc_def)

theorem noncritical_failure_stops_pipeline_witness:
  "''stage_2_relationships'' \<noteq> ''stage_1_entities'' \<and>
   etl_pipeline (default_globals ''r1'') =
     take 1 (etl_pipeline (default_globals ''r1'')) @
     (''stage_2_relationships'', snd (etl_pipeline (default_globals ''r1'') ! 1)) #
     drop 2 (etl_pipeline (default_globals ''r1'')) \<and>
   snd (fst (pipeline_loop (scripted_env [''/arthur-health/03_patient_medication_relationships''])
     (default_globals ''r1'') (take 1 (etl_pipeline (default_globals ''r1''))) [] True [])) \<and>
   \<not> list_all ur_success (fst (attempt_all
     (scripted_env [''/arthur-health/03_patient_medication_relationships''])
     (notebooks (snd (etl_pipeline (default_globals ''r1'') ! 1)))
     [''/arthur-health/01_patients_etl'', ''/arthur-health/02_medications_etl''])) \<and>
   md_status (run_metadata (master_orchestration
     (scripted_env [''/arthur-health/03_patient_medication_relationships''])
     (default_globals ''r1'') [])) = ''failed'' \<and>
   run_world (master_orchestration
     (scripted_env [''/arthur-health/03_patient_medication_relationships''])
     (default_globals ''r1'') []) =
     [''/arthur-health/01_patients_etl'', ''/arthur-health/02_medications_etl'',
      ''/arthur-health/03_patient_medication_relationships''] \<and>
   run_stage (scripted_env [''B'']) (default_globals ''r1'') ''stage_2_relationships'' stage_abc [] =
     ((False,
       [\<lparr>ur_notebook = ''A'', ur_success = True, ur_duration = 1,
          ur_result = \<lparr>rr_result = Some ''done'', rr_error = None\<rparr>\<rparr>,
        \<lparr>ur_notebook = ''B'', ur_success = False, ur_duration = 1,
          ur_result = \<lparr>rr_result = None, rr_error = Some ''boom''\<rparr>\<rparr>,
        \<lparr>ur_notebook = ''C'', ur_success = True, ur_duration = 1,
          ur_result = \<lparr>rr_result = Some ''done'', rr_error = None\<rparr>\<rparr>]),
      [''A'', ''B'', ''C''])"
  using noncritical_failure_stops_pipeline [of "''stage_2_relationships''"
      "scripted_env [''/arthur-health/03_patient_medication_relationships'']"
      "default_globals ''r1''" "take 1 (etl_pipeline (default_globals ''r1''))"
      "[]"
      "fst (fst (pipeline_loop (scripted_env [''/arthur-health/03_patient_medication_relationships''])
         (default_globals ''r1'') (take 1 (etl_pipeline (default_globals ''r1''))) [] True []))"
      "[''/arthur-health/01_patients_etl'', ''/arthur-health/02_medications_etl'']"
      "snd (etl_pipeline (default_globals ''r1'') ! 1)"
      "fst (attempt_all (scripted_env [''/arthur-health/03_patient_medication_relationships''])
         (notebooks (snd (etl_pipeline (default_globals ''r1'') ! 1)))
         [''/arthur-health/01_patients_etl'', ''/arthur-health/02_medications_etl''])"
      "[''/arthur-health/01_patients_etl'', ''/arthur-health/02_medications_etl'',
        ''/arthur-health/03_patient_medication_relationships'']"
      "drop 2 (etl_pipeline (default_globals ''r1''))" "[]" True]
    noncritical_failure_stops_pipeline [of "''stage_2_relationships''" "scripted_env [''B'']"
      "default_globals ''r1''" "[]" "[]" "[]" "[]" stage_abc
      "fst (attempt_all (scripted_env [''B'']) (notebooks stage_abc) [])"
      "[''A'', ''B'', ''C'']" "[]" "[]" True]
  by (simp add: run_eval master_orchestration_def)

text \<open>
  Claim C1 as the specification states it fails. In the pipeline of the source with the
  data-quality notebook of stage 3 enabled, let the relationship notebook of the
  non-critical stage 2 fail: stage 3 has no entry in the results, two stages were executed,
  and the data-quality notebook was never run. The same holds for the pipeline exactly as
  the source defines it.
\<close>

theorem later_stages_not_executed_counterexample:
  "''stage_2_relationships'' \<noteq> ''stage_1_entities'' \<and>
   map fst (md_detailed_results (run_metadata
     (run_pipeline (scripted_env [''/arthur-health/03_patient_medication_relationships''])
        (default_globals ''r1'') (etl_pipeline_with_validation (default_globals ''r1'')) []))) =
     [''stage_1_entities'', ''stage_2_relationships''] \<and>
   md_stages_executed (run_metadata
     (run_pipeline (scripted_env [''/arthur-health/03_patient_medication_relationships''])
        (default_globals ''r1'') (etl_pipeline_with_validation (default_globals ''r1'')) [])) = 2 \<and>
   run_world
     (run_pipeline (scripted_env [''/arthur-health/03_patient_medication_relationships''])
        (default_globals ''r1'') (etl_pipeline_with_validation (default_globals ''r1'')) []) =
     [''/arthur-health/01_patients_etl'', ''/arthur-health/02_medications_etl'',
      ''/arthur-health/03_patient_medication_relationships''] \<and>
   map fst (md_detailed_results (run_metadata
     (master_orchestration (scripted_env [''/arthur-health/03_patient_medication_relationships''])
        (default_globals ''r1'') []))) =
     [''stage_1_entities'', ''stage_2_relationships'']"
  by (simp add: run_eval master_orchestration_def)

theorem run_metadata_counts_witness:
  "md_notebooks_succeeded (run_metadata
     (master_orchestration (scripted_env [''/arthur-health/02_medications_etl''])
        (default_globals ''r1'') [])) = 1 \<and>
   md_notebooks_failed (run_metadata
     (master_orchestration (scripted_env [''/arthur-health/02_medications_etl''])
        (default_globals ''r1'') [])) = 1 \<and>
   md_notebooks_executed (run_metadata
     (master_orchestration (scripted_env [''/arthur-health/02_medications_etl''])
        (default_globals ''r1'') [])) = 2 \<and>
   md_status (run_metadata
     (master_orchestration (scripted_env [''/arthur-health/02_medications_etl''])
        (default_globals ''r1'') [])) = ''failed''"
  using run_metadata_counts [of "scripted_env [''/arthur-health/02_medications_etl'']"
      "default_globals ''r1''" "etl_pipeline (default_globals ''r1'')" "[]"]
  by (simp add: run_eval master_orchestration_def)

section \<open>Properties of the extraction queries and of the watermark\<close>

lemma eval_watermark_cond:
  "wh_convert wh lit = Some t \<Longrightarrow>
   (eval_cond wh r (Or (Gt ''last_modified'' lit) (Gt ''created_at'' lit)) = SqlTrue) =
   changed_since wh t r"
  by (cases "wh_datetime wh r ''last_modified''"; cases "wh_datetime wh r ''created_at''")
     (auto simp: changed_since_def later_than_def)

lemma jdbc_load_watermark_cond:
  "wh_convert wh lit = Some t \<Longrightarrow>
   jdbc_load wh \<lparr>sel_columns = cols, sel_from = tbl,
                sel_where = Some (Or (Gt ''last_modified'' lit) (Gt ''created_at'' lit)),
                sel_alias = al\<rparr> =
   Inr (filter (changed_since wh t) (wh_rows wh tbl))"
  using eval_watermark_cond [of wh lit t]
  by (simp add: jdbc_load_def cong: filter_cong)

text \<open>
  Claim C3. For every warehouse and every watermark text that the warehouse converts to
  the datetime \<open>t\<close>, the incremental query of each notebook returns exactly the rows of
  its table whose \<open>last_modified\<close> is later than \<open>t\<close> or whose \<open>created_at\<close> is later than
  \<open>t\<close>; the full-refresh query returns all rows of the table, whatever the watermark.
\<close>

theorem incremental_and_full_selection:
  assumes "wh_convert wh watermark = Some t"
  shows "jdbc_load wh (sql_query_patients True (Some watermark)) =
           Inr (filter (changed_since wh t) (wh_rows wh ''healthcare_fhir.patients'')) \<and>
         jdbc_load wh (sql_query_medications True (Some watermark)) =
           Inr (filter (changed_since wh t) (wh_rows wh ''healthcare_fhir.medications'')) \<and>
         jdbc_load wh (sql_query_prescriptions True (Some watermark)) =
           Inr (filter (changed_since wh t) (wh_rows wh ''healthcare_fhir.prescriptions'')) \<and>
         jdbc_load wh (sql_query_patients False any) = Inr (wh_rows wh ''healthcare_fhir.patients'') \<and>
         jdbc_load wh (sql_query_medications False any) =
           Inr (wh_rows wh ''healthcare_fhir.medications'') \<and>
         jdbc_load wh (sql_query_prescriptions False any) =
           Inr (wh_rows wh ''healthcare_fhir.prescriptions'')"
  using jdbc_load_watermark_cond [OF assms]
  by (simp add: sql_query_patients_def sql_query_medications_def sql_query_prescriptions_def
        format_value_def)
     (simp add: jdbc_load_def)

theorem incremental_and_full_selection_witness:
  "wh_convert example_warehouse ''2025-01-01 00:00:00'' = Some 20250101 \<and>
   jdbc_load example_warehouse (sql_query_patients True (Some ''2025-01-01 00:00:00'')) =
     Inr [(20250102, 20241230), (20250103, 20250103)] \<and>
   jdbc_load example_warehouse (sql_query_patients False (Some ''2025-01-01 00:00:00'')) =
     Inr [(20241231, 20241230), (20250102, 20241230), (20250103, 20250103)]"
  using incremental_and_full_selection [of example_warehouse "''2025-01-01 00:00:00''" 20250101
      "Some ''2025-01-01 00:00:00''"]
  by (simp add: example_warehouse_def changed_since_def later_than_def)

lemma jdbc_load_watermark_cond_any:
  "jdbc_load wh \<lparr>sel_columns = cols, sel_from = tbl,
                   sel_where = Some (Or (Gt ''last_modified'' lit) (Gt ''created_at'' lit)),
                   sel_alias = al\<rparr> =
   (case wh_convert wh lit of
      None \<Rightarrow> Inl ConversionFailed
    | Some t \<Rightarrow> Inr (filter (changed_since wh t) (wh_rows wh tbl)))"
proof (cases "wh_convert wh lit")
  case None
  then show ?thesis by (simp add: jdbc_load_def)
next
  case (Some t)
  then show ?thesis using jdbc_load_watermark_cond [OF Some] by simp
qed

text \<open>
  Claim C8, as amended. The notebooks have no case for an absent timestamp: incremental
  mode does not switch to the full-refresh query. For every value of
  \<open>LAST_RUN_TIMESTAMP\<close>, absent or not, the incremental query of each notebook keeps its
  \<open>WHERE\<close> clause on the formatted value, and an absent value is written there as the
  literal \<open>None\<close>. The extraction fails when the warehouse cannot convert the literal to a
  datetime, and otherwise returns exactly the rows whose \<open>last_modified\<close> or \<open>created_at\<close>
  is later than the converted value.
\<close>

theorem incremental_query_keeps_where_clause:
  "format_value None = ''None'' \<and>
   sel_where (sql_query_patients True ts) =
     Some (Or (Gt ''last_modified'' (format_value ts)) (Gt ''created_at'' (format_value ts))) \<and>
   sel_where (sql_query_medications True ts) =
     Some (Or (Gt ''last_modified'' (format_value ts)) (Gt ''created_at'' (format_value ts))) \<and>
   sel_where (sql_query_prescriptions True ts) =
     Some (Or (Gt ''last_modified'' (format_value ts)) (Gt ''created_at'' (format_value ts))) \<and>
   sql_query_patients True ts \<noteq> sql_query_patients False ts \<and>
   sql_query_medications True ts \<noteq> sql_query_medications False ts \<and>
   sql_query_prescriptions True ts \<noteq> sql_query_prescriptions False ts \<and>
   jdbc_load wh (sql_query_patients True ts) =
     (case wh_convert wh (format_value ts) of
        None \<Rightarrow> Inl ConversionFailed
      | Some t \<Rightarrow> Inr (filter (changed_since wh t) (wh_rows wh ''healthcare_fhir.patients''))) \<and>
   jdbc_load wh (sql_query_medications True ts) =
     (case wh_convert wh (format_value ts) of
        None \<Rightarrow> Inl ConversionFailed
      | Some t \<Rightarrow> Inr (filter (changed_since wh t) (wh_rows wh ''healthcare_fhir.medications''))) \<and>
   jdbc_load wh (sql_query_prescriptions True ts) =
     (case wh_convert wh (format_value ts) of
        None \<Rightarrow> Inl ConversionFailed
      | Some t \<Rightarrow>
          Inr (filter (changed_since wh t) (wh_rows wh ''healthcare_fhir.prescriptions'')))"
  by (simp add: sql_query_patients_def sql_query_medications_def sql_query_prescriptions_def
        jdbc_load_watermark_cond_any)
     (simp add: format_value_def)

text \<open>
  Claim C8 as the specification states it fails. With an absent timestamp on the example
  warehouse, the incremental extraction fails with a conversion error, where full mode
  returns the three rows; the two queries are different.
\<close>

theorem absent_watermark_counterexample:
  "jdbc_load example_warehouse (sql_query_patients True None) = Inl ConversionFailed \<and>
   jdbc_load example_warehouse (sql_query_patients False None) =
     Inr [(20241231, 20241230), (20250102, 20241230), (20250103, 20250103)] \<and>
   sql_query_patients True None \<noteq> sql_query_patients False None"
  by (simp add: example_warehouse_def sql_query_patients_def format_value_def jdbc_load_def)

theorem incremental_query_keeps_where_clause_witness:
  "sel_where (sql_query_patients True None) =
     Some (Or (Gt ''last_modified'' ''None'') (Gt ''created_at'' ''None'')) \<and>
   jdbc_load example_warehouse (sql_query_patients True None) = Inl ConversionFailed \<and>
   jdbc_load example_warehouse (sql_query_patients True (Some ''2025-01-01 00:00:00'')) =
     Inr [(20250102, 20241230), (20250103, 20250103)]"
  using incremental_query_keeps_where_clause [of None example_warehouse]
    incremental_query_keeps_where_clause [of "Some ''2025-01-01 00:00:00''" example_warehouse]
  by (simp add: example_warehouse_def format_value_def changed_since_def later_than_def)

text \<open>
  Claim C6. No run changes the stored watermark \<open>LAST_SUCCESSFUL_RUN\<close>: the configuration
  after the run is the one before it, so the parameters handed to the notebooks and the
  selection the planner builds from the watermark are identical on the next run. The only
  advance the notebook performs is to announce the timestamp the next incremental run
  should use, and it announces one exactly when the run did not fail; a failed run
  announces none and ends by raising.
\<close>

theorem failed_run_keeps_watermark:
  "(let r = run_pipeline e g stages w in
      run_globals r = g \<and>
      LAST_SUCCESSFUL_RUN (run_globals r) = LAST_SUCCESSFUL_RUN g \<and>
      notebook_parameters (run_globals r) = notebook_parameters g \<and>
      sql_query_patients inc (Some (LAST_SUCCESSFUL_RUN (run_globals r))) =
        sql_query_patients inc (Some (LAST_SUCCESSFUL_RUN g)) \<and>
      sql_query_medications inc (Some (LAST_SUCCESSFUL_RUN (run_globals r))) =
        sql_query_medications inc (Some (LAST_SUCCESSFUL_RUN g)) \<and>
      sql_query_prescriptions inc (Some (LAST_SUCCESSFUL_RUN (run_globals r))) =
        sql_query_prescriptions inc (Some (LAST_SUCCESSFUL_RUN g)) \<and>
      (run_next_timestamp r = None) = (md_status (run_metadata r) = ''failed'') \<and>
      (md_status (run_metadata r) = ''failed'') = isl (run_exit r))"
  by (simp add: run_pipeline_def Let_def build_etl_metadata_def split: prod.splits)

theorem failed_run_keeps_watermark_witness:
  "md_status (run_metadata (master_orchestration
      (scripted_env [''/arthur-health/01_patients_etl'']) (default_globals ''r1'') [])) = ''failed'' \<and>
   run_next_timestamp (master_orchestration
      (scripted_env [''/arthur-health/01_patients_etl'']) (default_globals ''r1'') []) = None \<and>
   LAST_SUCCESSFUL_RUN (run_globals (master_orchestration
      (scripted_env [''/arthur-health/01_patients_etl'']) (default_globals ''r1'') [])) =
     ''2025-01-01 00:00:00''"
  using failed_run_keeps_watermark [of "scripted_env [''/arthur-health/01_patients_etl'']"
      "default_globals ''r1''" "etl_pipeline (default_globals ''r1'')" "[]"]
  by (simp add: run_eval master_orchestration_def)

section \<open>Properties of the text vectorization\<close>

lemma py_strip_blank: "list_all py_isspace t \<Longrightarrow> py_strip t = []"
proof -
  assume "list_all py_isspace t"
  then have d: "dropWhile py_isspace t = []"
    by (simp add: list_all_iff)
  show ?thesis unfolding py_strip_def d by simp
qed

lemma call_failed_request:
  assumes "post w embeddings_url (embeddings_headers key) (embeddings_payload t) 30 = (out, w')"
    and "call_failed out"
  shows "\<exists>ex. embedding_request post key t w = (Inl ex, w')"
proof (cases out)
  case (Inl ex)
  with assms show ?thesis by (simp add: embedding_request_def)
next
  case (Inr r)
  with assms have "isl (response_embedding r)"
    by (auto simp: call_failed_def response_embedding_def raise_for_status_def response_json_def)
  then obtain ex where "response_embedding r = Inl ex" by (cases "response_embedding r") auto
  with Inr assms show ?thesis by (simp add: embedding_request_def)
qed

text \<open>
  Claim C4. For every text, service and world: if the call of the embedding service
  fails (the request raises, as on a timeout; or the response has an error status, is
  not JSON, or carries no embedding), then \<open>generate_embedding\<close> returns the zero vector,
  a list of 1536 zeros, as its value: the exception of the \<open>try\<close> block does not leave the
  function.
\<close>

theorem service_failure_zero_vector:
  assumes "post w embeddings_url (embeddings_headers key) (embeddings_payload t) 30 = (out, w')"
    and "call_failed out"
  shows "fst (generate_embedding post key (Some t) w) = zero_vector \<and>
         zero_vector = JArray (replicate 1536 (JNumber 0)) \<and>
         length (replicate 1536 (JNumber 0)) = 1536"
proof -
  from call_failed_request [of post w key t out w', OF assms] obtain ex
    where "embedding_request post key t w = (Inl ex, w')" by blast
  then show ?thesis by (simp add: generate_embedding_def zero_vector_def)
qed

theorem service_failure_zero_vector_witness:
  "call_failed (fst (timeout_service 0 embeddings_url (embeddings_headers ''k'')
      (embeddings_payload [112, 111, 108, 105, 99, 121]) 30)) \<and>
   generate_embedding timeout_service ''k'' (Some [112, 111, 108, 105, 99, 121]) 0 =
     (zero_vector, 1) \<and>
   call_failed (fst (rate_limited_service 0 embeddings_url (embeddings_headers ''k'')
      (embeddings_payload [112, 111, 108, 105, 99, 121]) 30)) \<and>
   fst (generate_embedding rate_limited_service ''k'' (Some [112, 111, 108, 105, 99, 121]) 0) =
     zero_vector"
  using service_failure_zero_vector [of timeout_service 0 "''k''" "[112, 111, 108, 105, 99, 121]"
      "Inl Timeout" 1]
    service_failure_zero_vector [of rate_limited_service 0 "''k''" "[112, 111, 108, 105, 99, 121]"
      "Inr \<lparr>status_code = 429, body_json = Some (JObject [(''error'', JString ''rate limit'')])\<rparr>" 1]
  by (simp add: timeout_service_def rate_limited_service_def call_failed_def
        generate_embedding_def embedding_request_def py_strip_def py_isspace_def
        response_embedding_def raise_for_status_def)

text \<open>
  Claim C5. For every text that is empty or consists of whitespace only, and for an
  absent text, \<open>generate_embedding\<close> returns the zero vector of 1536 zeros and leaves the
  world as it was, for every service: the service is not called.
\<close>

theorem blank_text_zero_vector:
  assumes "list_all py_isspace t"
  shows "generate_embedding post key (Some t) w = (zero_vector, w) \<and>
         generate_embedding post key None w = (zero_vector, w) \<and>
         zero_vector = JArray (replicate 1536 (JNumber 0)) \<and>
         length (replicate 1536 (JNumber 0)) = 1536"
  using py_strip_blank [OF assms] by (simp add: generate_embedding_def zero_vector_def)

theorem blank_text_zero_vector_witness:
  "list_all py_isspace [32, 9, 10, 160] \<and>
   generate_embedding good_service ''k'' (Some [32, 9, 10, 160]) 0 = (zero_vector, 0) \<and>
   generate_embedding good_service ''k'' (Some []) 0 = (zero_vector, 0) \<and>
   generate_embedding good_service ''k'' (Some [32, 97]) 0 = (JArray [JNumber 1], 1)"
  using blank_text_zero_vector [of "[32, 9, 10, 160]" good_service "''k''" 0]
    blank_text_zero_vector [of "[]" good_service "''k''" 0]
  by (simp add: py_isspace_def generate_embedding_def embedding_request_def py_strip_def
        good_service_def response_embedding_def raise_for_status_def response_json_def)

section \<open>Properties of the graph load\<close>

lemma keyed_upsert_filter_other:
  assumes "\<And>x. matches x \<Longrightarrow> \<not> Q x" and "\<And>x. matches x \<Longrightarrow> \<not> Q (update x)" and "\<not> Q created"
  shows "filter Q (keyed_upsert matches update created xs) = filter Q xs"
proof -
  have "filter Q (map (\<lambda>x. if matches x then update x else x) xs) = filter Q xs"
    by (induction xs) (use assms in auto)
  then show ?thesis using assms(3) by (simp add: keyed_upsert_def)
qed

lemma keyed_upsert_map_id:
  assumes "\<And>x. matches x \<Longrightarrow> f (update x) = f x"
  shows "take (length xs) (map f (keyed_upsert matches update created xs)) = map f xs"
proof -
  have "map f (map (\<lambda>x. if matches x then update x else x) xs) = map f xs"
    by (induction xs) (use assms in auto)
  then show ?thesis by (simp add: keyed_upsert_def)
qed

lemma keyed_upsert_length: "length xs \<le> length (keyed_upsert matches update created xs)"
  by (simp add: keyed_upsert_def)

lemma keyed_upsert_filter_matching:
  assumes "length (filter matches xs) \<le> 1"
    and "\<And>x. matches x \<Longrightarrow> matches (update x)" and "matches created"
    and "\<And>x. matches x \<Longrightarrow> f (update x) = v" and "f created = v"
  shows "map f (filter matches (keyed_upsert matches update created xs)) = [v]"
proof (cases "list_ex matches xs")
  case False
  then have "filter matches xs = []" by (auto simp: list_ex_iff filter_empty_conv)
  with False assms(3,5) show ?thesis by (simp add: keyed_upsert_def)
next
  case True
  let ?u = "\<lambda>x. if matches x then update x else x"
  have f: "filter matches (map ?u ys) = map update (filter matches ys)" for ys
    by (induction ys) (use assms(2) in auto)
  from True have "filter matches xs \<noteq> []" by (auto simp: list_ex_iff filter_empty_conv)
  with assms(1) obtain x where x: "filter matches xs = [x]"
    by (cases "filter matches xs") auto
  then have "x \<in> set (filter matches xs)" by simp
  then have "matches x" by simp
  with True f [of xs] x assms(4) show ?thesis by (simp add: keyed_upsert_def)
qed

lemma distinct_filter_le1:
  "distinct (map k (filter P xs)) \<Longrightarrow> length (filter (\<lambda>x. P x \<and> k x = K) xs) \<le> 1"
proof (induction xs)
  case Nil
  then show ?case by simp
next
  case (Cons x xs)
  show ?case
  proof (cases "P x \<and> k x = K")
    case True
    with Cons.prems have "K \<notin> set (map k (filter P xs))" by auto
    then have "filter (\<lambda>x. P x \<and> k x = K) xs = []" by (auto simp: filter_empty_conv)
    with True show ?thesis by simp
  next
    case False
    with Cons show ?thesis by (auto split: if_splits)
  qed
qed

lemma keyed_upsert_keys:
  assumes "\<And>x. matches x = (P x \<and> k x = K)"
    and "\<And>x. matches x \<Longrightarrow> P (update x) \<and> k (update x) = K"
    and "P created" and "k created = K"
  shows "map k (filter P (keyed_upsert matches update created xs)) =
         (if K \<in> set (map k (filter P xs)) then map k (filter P xs)
          else map k (filter P xs) @ [K])"
proof -
  let ?u = "\<lambda>x. if matches x then update x else x"
  have m: "map k (filter P (map ?u ys)) = map k (filter P ys)" for ys
    by (induction ys) (use assms(1,2) in auto)
  have e: "list_ex matches xs = (K \<in> set (map k (filter P xs)))"
    by (auto simp: list_ex_iff assms(1))
  show ?thesis using m [of xs] e assms(3,4) by (simp add: keyed_upsert_def)
qed

lemma keyed_upsert_distinct:
  assumes "\<And>x. matches x = (P x \<and> k x = K)"
    and "\<And>x. matches x \<Longrightarrow> P (update x) \<and> k (update x) = K"
    and "P created" and "k created = K"
    and "distinct (map k (filter P xs))"
  shows "distinct (map k (filter P (keyed_upsert matches update created xs)))"
proof -
  have "map k (filter P (keyed_upsert matches update created xs)) =
         (if K \<in> set (map k (filter P xs)) then map k (filter P xs)
          else map k (filter P xs) @ [K])"
    using assms(1-4) by (rule keyed_upsert_keys)
  then show ?thesis using assms(5) by (simp split: if_splits)
qed

lemma node_matches_fun:
  "node_matches label ks K = (\<lambda>n. n_label n = label \<and> key_of ks (n_props n) = K)"
  by (rule ext) (simp add: node_matches_def)

lemma upsert_node_distinct:
  "distinct (node_keys label ks ns) \<Longrightarrow> distinct (node_keys label ks (upsert_node label ks row ns))"
  unfolding node_keys_def upsert_node_def
  by (rule keyed_upsert_distinct [where K = "key_of ks row"]) (simp_all add: node_matches_def)

lemma upsert_node_take:
  "take (length ns) (map (node_id ks) (upsert_node label ks row ns)) = map (node_id ks) ns"
  unfolding upsert_node_def
  by (rule keyed_upsert_map_id) (simp add: node_matches_def node_id_def)

lemma upsert_node_length: "length ns \<le> length (upsert_node label ks row ns)"
  unfolding upsert_node_def by (rule keyed_upsert_length)

lemma upsert_node_other:
  assumes "\<not> Q label (key_of ks row)"
  shows "filter (\<lambda>n. Q (n_label n) (key_of ks (n_props n))) (upsert_node label ks row ns) =
         filter (\<lambda>n. Q (n_label n) (key_of ks (n_props n))) ns"
  unfolding upsert_node_def
  by (rule keyed_upsert_filter_other) (use assms in \<open>auto simp: node_matches_def\<close>)

lemma upsert_node_latest:
  assumes "distinct (node_keys label ks ns)"
  shows "map n_props (filter (node_matches label ks (key_of ks row)) (upsert_node label ks row ns)) =
         [row]"
proof -
  have "length (filter (\<lambda>n. n_label n = label \<and> key_of ks (n_props n) = key_of ks row) ns) \<le> 1"
    using assms unfolding node_keys_def by (rule distinct_filter_le1)
  then have "length (filter (node_matches label ks (key_of ks row)) ns) \<le> 1"
    by (simp add: node_matches_fun)
  then show ?thesis
    unfolding upsert_node_def
    by (rule keyed_upsert_filter_matching) (simp_all add: node_matches_def)
qed

lemma fold_nodes_distinct:
  "distinct (node_keys label ks ns) \<Longrightarrow> distinct (node_keys label ks (fold_nodes label ks rows ns))"
  by (induction rows arbitrary: ns) (simp_all add: upsert_node_distinct)

lemma fold_nodes_length: "length ns \<le> length (fold_nodes label ks rows ns)"
proof (induction rows arbitrary: ns)
  case Nil
  then show ?case by simp
next
  case (Cons r rows)
  have "length ns \<le> length (upsert_node label ks r ns)" by (rule upsert_node_length)
  also have "\<dots> \<le> length (fold_nodes label ks rows (upsert_node label ks r ns))" by (rule Cons.IH)
  finally show ?case by simp
qed

lemma fold_nodes_take:
  "take (length ns) (map (node_id ks) (fold_nodes label ks rows ns)) = map (node_id ks) ns"
proof (induction rows arbitrary: ns)
  case Nil
  then show ?case by simp
next
  case (Cons r rows)
  let ?ns1 = "upsert_node label ks r ns"
  have le: "length ns \<le> length ?ns1" by (rule upsert_node_length)
  have "take (length ns) (map (node_id ks) (fold_nodes label ks rows ?ns1)) =
        take (length ns) (take (length ?ns1) (map (node_id ks) (fold_nodes label ks rows ?ns1)))"
    using le by (simp add: min_def)
  also have "\<dots> = take (length ns) (map (node_id ks) ?ns1)"
    by (simp only: Cons.IH)
  also have "\<dots> = map (node_id ks) ns" by (rule upsert_node_take)
  finally show ?case by simp
qed

lemma fold_nodes_other:
  assumes "list_all (\<lambda>row. \<not> Q label (key_of ks row)) rows"
  shows "filter (\<lambda>n. Q (n_label n) (key_of ks (n_props n))) (fold_nodes label ks rows ns) =
         filter (\<lambda>n. Q (n_label n) (key_of ks (n_props n))) ns"
  using assms by (induction rows arbitrary: ns) (simp_all add: upsert_node_other)

lemma fold_nodes_latest:
  assumes "distinct (node_keys label ks ns)"
    and "list_all (\<lambda>r'. key_of ks r' \<noteq> key_of ks r) rows2"
  shows "map n_props (filter (node_matches label ks (key_of ks r))
           (fold_nodes label ks (rows1 @ r # rows2) ns)) = [r]"
proof -
  let ?ns1 = "fold_nodes label ks rows1 ns"
  let ?ns2 = "upsert_node label ks r ?ns1"
  have d: "distinct (node_keys label ks ?ns1)" using assms(1) by (rule fold_nodes_distinct)
  have "list_all (\<lambda>row. \<not> (label = label \<and> key_of ks row = key_of ks r)) rows2"
    using assms(2) by simp
  then have "filter (\<lambda>n. n_label n = label \<and> key_of ks (n_props n) = key_of ks r)
               (fold_nodes label ks rows2 ?ns2) =
             filter (\<lambda>n. n_label n = label \<and> key_of ks (n_props n) = key_of ks r) ?ns2"
    by (rule fold_nodes_other [where Q = "\<lambda>l k. l = label \<and> k = key_of ks r"])
  then have "filter (node_matches label ks (key_of ks r)) (fold_nodes label ks rows2 ?ns2) =
             filter (node_matches label ks (key_of ks r)) ?ns2"
    by (simp add: node_matches_fun)
  with upsert_node_latest [OF d, of r] show ?thesis by simp
qed

lemma write_nodes_contract: "node_upsert_contract label ks (write_nodes label ks)"
proof -
  have other: "other_nodes label ks rows (write_nodes label ks rows g) = other_nodes label ks rows g"
    for rows and g :: "'a graph"
  proof -
    have "list_all (\<lambda>row. \<not> \<not> (label = label \<and> key_of ks row \<in> set (map (key_of ks) rows))) rows"
      by (simp add: list_all_iff)
    then show ?thesis
      unfolding other_nodes_def write_nodes_def
      using fold_nodes_other
        [where Q = "\<lambda>l k. \<not> (l = label \<and> k \<in> set (map (key_of ks) rows))" and rows = rows
           and label = label and ks = ks and ns = "g_nodes g"]
      by simp
  qed
  have latest: "map n_props (nodes_with_key label ks (key_of ks r)
                   (write_nodes label ks (rows1 @ r # rows2) g)) = [r]"
    if "distinct (node_keys label ks (g_nodes g))"
      and "list_all (\<lambda>r'. key_of ks r' \<noteq> key_of ks r) rows2"
    for rows1 r rows2 and g :: "'a graph"
    using fold_nodes_latest [OF that, of rows1] by (simp add: write_nodes_def nodes_with_key_def)
  show ?thesis
    unfolding node_upsert_contract_def
    by (intro allI conjI impI)
       (simp_all add: other latest, simp_all add: write_nodes_def fold_nodes_take
          fold_nodes_distinct)
qed

lemma rel_matches_fun:
  "rel_matches rtype sk tk = (\<lambda>r. r_type r = rtype \<and> (r_source_key r, r_target_key r) = (sk, tk))"
  by (rule ext) (auto simp: rel_matches_def)

lemma write_relationships_Nil [simp]:
  "write_relationships rtype slabel skey tlabel tkey [] g = g"
  by (simp add: write_relationships_def)

lemma write_relationships_Cons [simp]:
  "write_relationships rtype slabel skey tlabel tkey (row # rows) g =
   write_relationships rtype slabel skey tlabel tkey rows
     (write_relationship_row rtype slabel skey tlabel tkey row g)"
  by (simp add: write_relationships_def)

lemma write_relationships_append:
  "write_relationships rtype slabel skey tlabel tkey (rows1 @ rows2) g =
   write_relationships rtype slabel skey tlabel tkey rows2
     (write_relationships rtype slabel skey tlabel tkey rows1 g)"
  by (simp add: write_relationships_def)

lemma row_nodes [simp]:
  "g_nodes (write_relationship_row rtype slabel skey tlabel tkey row g) = g_nodes g"
  by (simp add: write_relationship_row_def upsert_relationship_def split: option.splits)

lemma rows_nodes [simp]:
  "g_nodes (write_relationships rtype slabel skey tlabel tkey rows g) = g_nodes g"
  by (induction rows arbitrary: g) simp_all

lemma row_cases:
  obtains (same) "write_relationship_row rtype slabel skey tlabel tkey row g = g"
  | (upsert) sk tk where "rel_row_key row = Some (sk, tk)"
      "node_exists slabel skey sk (g_nodes g)" "node_exists tlabel tkey tk (g_nodes g)"
      "g_relationships (write_relationship_row rtype slabel skey tlabel tkey row g) =
         keyed_upsert (rel_matches rtype sk tk) (\<lambda>r. r\<lparr>r_props := rel_props row\<rparr>)
           \<lparr>r_type = rtype, r_source_label = slabel, r_source_key = sk,
            r_target_label = tlabel, r_target_key = tk, r_props = rel_props row\<rparr>
           (g_relationships g)"
proof (cases "rel_row_key row")
  case None
  then show ?thesis using same by (simp add: write_relationship_row_def)
next
  case (Some key)
  obtain sk tk where key: "key = (sk, tk)" by (cases key)
  show ?thesis
  proof (cases "node_exists slabel skey sk (g_nodes g) \<and> node_exists tlabel tkey tk (g_nodes g)")
    case True
    then show ?thesis using upsert [of sk tk] Some key
      by (simp add: write_relationship_row_def upsert_relationship_def)
  next
    case False
    then show ?thesis using same Some key
      by (auto simp add: write_relationship_row_def upsert_relationship_def)
  qed
qed

lemma row_distinct:
  assumes "distinct (rel_keys rtype (g_relationships g))"
  shows "distinct (rel_keys rtype
           (g_relationships (write_relationship_row rtype slabel skey tlabel tkey row g)))"
proof (cases rule: row_cases [of rtype slabel skey tlabel tkey row g])
  case same
  with assms show ?thesis by simp
next
  case (upsert sk tk)
  show ?thesis
    unfolding upsert(4) rel_keys_def
    by (rule keyed_upsert_distinct [where K = "(sk, tk)"])
       (use assms in \<open>auto simp: rel_matches_def rel_keys_def\<close>)
qed

lemma row_take:
  "take (length (g_relationships g))
     (map rel_id (g_relationships (write_relationship_row rtype slabel skey tlabel tkey row g))) =
   map rel_id (g_relationships g)"
proof (cases rule: row_cases [of rtype slabel skey tlabel tkey row g])
  case same
  then show ?thesis by simp
next
  case (upsert sk tk)
  show ?thesis
    unfolding upsert(4)
    by (rule keyed_upsert_map_id) (simp add: rel_id_def)
qed

lemma row_length:
  "length (g_relationships g) \<le>
   length (g_relationships (write_relationship_row rtype slabel skey tlabel tkey row g))"
proof (cases rule: row_cases [of rtype slabel skey tlabel tkey row g])
  case same
  then show ?thesis by simp
next
  case (upsert sk tk)
  show ?thesis unfolding upsert(4) by (rule keyed_upsert_length)
qed

lemma row_other:
  assumes "\<And>key. rel_row_key row = Some key \<Longrightarrow> \<not> Q rtype key"
  shows "filter (\<lambda>r. Q (r_type r) (r_source_key r, r_target_key r))
           (g_relationships (write_relationship_row rtype slabel skey tlabel tkey row g)) =
         filter (\<lambda>r. Q (r_type r) (r_source_key r, r_target_key r)) (g_relationships g)"
proof (cases rule: row_cases [of rtype slabel skey tlabel tkey row g])
  case same
  then show ?thesis by simp
next
  case (upsert sk tk)
  have "\<not> Q rtype (sk, tk)" using assms upsert(1) by blast
  then show ?thesis
    unfolding upsert(4)
    by (intro keyed_upsert_filter_other) (auto simp: rel_matches_def)
qed

lemma row_latest:
  assumes "distinct (rel_keys rtype (g_relationships g))" and "rel_row_key row = Some (sk, tk)"
    and "node_exists slabel skey sk (g_nodes g)" and "node_exists tlabel tkey tk (g_nodes g)"
  shows "map r_props (filter (rel_matches rtype sk tk)
           (g_relationships (write_relationship_row rtype slabel skey tlabel tkey row g))) =
         [rel_props row]"
proof -
  have "length (filter (\<lambda>r. r_type r = rtype \<and> (r_source_key r, r_target_key r) = (sk, tk))
          (g_relationships g)) \<le> 1"
    using assms(1) unfolding rel_keys_def by (rule distinct_filter_le1)
  then have le: "length (filter (rel_matches rtype sk tk) (g_relationships g)) \<le> 1"
    by (simp add: rel_matches_fun)
  have "g_relationships (write_relationship_row rtype slabel skey tlabel tkey row g) =
         keyed_upsert (rel_matches rtype sk tk) (\<lambda>r. r\<lparr>r_props := rel_props row\<rparr>)
           \<lparr>r_type = rtype, r_source_label = slabel, r_source_key = sk,
            r_target_label = tlabel, r_target_key = tk, r_props = rel_props row\<rparr>
           (g_relationships g)"
    using assms(2-4) by (simp add: write_relationship_row_def upsert_relationship_def)
  then show ?thesis
    using le by (simp only:) (rule keyed_upsert_filter_matching, simp_all add: rel_matches_def)
qed

lemma row_missing_endpoint:
  assumes "\<not> (node_exists slabel skey sk (g_nodes g) \<and> node_exists tlabel tkey tk (g_nodes g))"
  shows "filter (rel_matches rtype sk tk)
           (g_relationships (write_relationship_row rtype slabel skey tlabel tkey row g)) =
         filter (rel_matches rtype sk tk) (g_relationships g)"
proof (cases "rel_row_key row = Some (sk, tk)")
  case True
  with assms show ?thesis by (auto simp: write_relationship_row_def upsert_relationship_def)
next
  case False
  then have "\<And>key. rel_row_key row = Some key \<Longrightarrow> \<not> (rtype = rtype \<and> key = (sk, tk))" by auto
  then have "filter (\<lambda>r. r_type r = rtype \<and> (r_source_key r, r_target_key r) = (sk, tk))
           (g_relationships (write_relationship_row rtype slabel skey tlabel tkey row g)) =
         filter (\<lambda>r. r_type r = rtype \<and> (r_source_key r, r_target_key r) = (sk, tk)) (g_relationships g)"
    by (rule row_other [where Q = "\<lambda>t k. t = rtype \<and> k = (sk, tk)"])
  then show ?thesis by (simp add: rel_matches_fun)
qed

lemma rows_distinct:
  "distinct (rel_keys rtype (g_relationships g)) \<Longrightarrow>
   distinct (rel_keys rtype (g_relationships (write_relationships rtype slabel skey tlabel tkey rows g)))"
  by (induction rows arbitrary: g) (simp_all add: row_distinct)

lemma rows_length:
  "length (g_relationships g) \<le>
   length (g_relationships (write_relationships rtype slabel skey tlabel tkey rows g))"
proof (induction rows arbitrary: g)
  case Nil
  then show ?case by simp
next
  case (Cons r rows)
  let ?g1 = "write_relationship_row rtype slabel skey tlabel tkey r g"
  have "length (g_relationships g) \<le> length (g_relationships ?g1)" by (rule row_length)
  also have "\<dots> \<le> length (g_relationships (write_relationships rtype slabel skey tlabel tkey rows ?g1))"
    by (rule Cons.IH)
  finally show ?case by simp
qed

lemma rows_take:
  "take (length (g_relationships g))
     (map rel_id (g_relationships (write_relationships rtype slabel skey tlabel tkey rows g))) =
   map rel_id (g_relationships g)"
proof (induction rows arbitrary: g)
  case Nil
  then show ?case by simp
next
  case (Cons r rows)
  let ?g1 = "write_relationship_row rtype slabel skey tlabel tkey r g"
  let ?g2 = "write_relationships rtype slabel skey tlabel tkey rows ?g1"
  have le: "length (g_relationships g) \<le> length (g_relationships ?g1)" by (rule row_length)
  have "take (length (g_relationships g)) (map rel_id (g_relationships ?g2)) =
        take (length (g_relationships g))
          (take (length (g_relationships ?g1)) (map rel_id (g_relationships ?g2)))"
    using le by (simp add: min_def)
  also have "\<dots> = take (length (g_relationships g)) (map rel_id (g_relationships ?g1))"
    by (simp only: Cons.IH)
  also have "\<dots> = map rel_id (g_relationships g)" by (rule row_take)
  finally show ?case by simp
qed

lemma rows_other:
  assumes "list_all (\<lambda>row. \<forall>key. rel_row_key row = Some key \<longrightarrow> \<not> Q rtype key) rows"
  shows "filter (\<lambda>r. Q (r_type r) (r_source_key r, r_target_key r))
           (g_relationships (write_relationships rtype slabel skey tlabel tkey rows g)) =
         filter (\<lambda>r. Q (r_type r) (r_source_key r, r_target_key r)) (g_relationships g)"
  using assms
proof (induction rows arbitrary: g)
  case Nil
  then show ?case by simp
next
  case (Cons r rows)
  have "\<And>key. rel_row_key r = Some key \<Longrightarrow> \<not> Q rtype key"
    using Cons.prems by auto
  then have "filter (\<lambda>r. Q (r_type r) (r_source_key r, r_target_key r))
           (g_relationships (write_relationship_row rtype slabel skey tlabel tkey r g)) =
         filter (\<lambda>r. Q (r_type r) (r_source_key r, r_target_key r)) (g_relationships g)"
    by (rule row_other)
  moreover have "list_all (\<lambda>row. \<forall>key. rel_row_key row = Some key \<longrightarrow> \<not> Q rtype key) rows"
    using Cons.prems by simp
  ultimately show ?case using Cons.IH by simp
qed

lemma rows_missing_endpoint:
  assumes "\<not> (node_exists slabel skey sk (g_nodes g) \<and> node_exists tlabel tkey tk (g_nodes g))"
  shows "filter (rel_matches rtype sk tk)
           (g_relationships (write_relationships rtype slabel skey tlabel tkey rows g)) =
         filter (rel_matches rtype sk tk) (g_relationships g)"
  using assms
proof (induction rows arbitrary: g)
  case Nil
  then show ?case by simp
next
  case (Cons r rows)
  then show ?case using row_missing_endpoint [of slabel skey sk g tlabel tkey tk rtype r] by simp
qed

lemma rows_latest:
  assumes "distinct (rel_keys rtype (g_relationships g))" and "rel_row_key p = Some (sk, tk)"
    and "node_exists slabel skey sk (g_nodes g)" and "node_exists tlabel tkey tk (g_nodes g)"
    and "list_all (\<lambda>p'. rel_row_key p' \<noteq> Some (sk, tk)) rows2"
  shows "map r_props (filter (rel_matches rtype sk tk)
           (g_relationships (write_relationships rtype slabel skey tlabel tkey (rows1 @ p # rows2) g))) =
         [rel_props p]"
proof -
  let ?g1 = "write_relationships rtype slabel skey tlabel tkey rows1 g"
  let ?g2 = "write_relationship_row rtype slabel skey tlabel tkey p ?g1"
  have d: "distinct (rel_keys rtype (g_relationships ?g1))" using assms(1) by (rule rows_distinct)
  have l: "map r_props (filter (rel_matches rtype sk tk) (g_relationships ?g2)) = [rel_props p]"
    using d assms(2) by (rule row_latest) (use assms(3,4) in simp_all)
  have "list_all (\<lambda>row. \<forall>key. rel_row_key row = Some key \<longrightarrow> \<not> (rtype = rtype \<and> key = (sk, tk))) rows2"
    using assms(5) by (auto simp: list_all_iff)
  then have "filter (\<lambda>r. r_type r = rtype \<and> (r_source_key r, r_target_key r) = (sk, tk))
               (g_relationships (write_relationships rtype slabel skey tlabel tkey rows2 ?g2)) =
             filter (\<lambda>r. r_type r = rtype \<and> (r_source_key r, r_target_key r) = (sk, tk))
               (g_relationships ?g2)"
    by (rule rows_other [where Q = "\<lambda>t k. t = rtype \<and> k = (sk, tk)"])
  then have "filter (rel_matches rtype sk tk)
               (g_relationships (write_relationships rtype slabel skey tlabel tkey rows2 ?g2)) =
             filter (rel_matches rtype sk tk) (g_relationships ?g2)"
    by (simp add: rel_matches_fun)
  with l show ?thesis by (simp add: write_relationships_append)
qed

lemma write_relationships_contract:
  "relationship_upsert_contract rtype slabel skey tlabel tkey
     (write_relationships rtype slabel skey tlabel tkey)"
proof -
  have other: "other_relationships rtype rows (write_relationships rtype slabel skey tlabel tkey rows g) =
               other_relationships rtype rows g" for rows and g :: "'a graph"
  proof -
    have "list_all (\<lambda>row. \<forall>key. rel_row_key row = Some key \<longrightarrow>
            \<not> \<not> (rtype = rtype \<and> Some key \<in> set (map rel_row_key rows))) rows"
      by (force simp: list_all_iff)
    then show ?thesis
      unfolding other_relationships_def
      using rows_other
        [where Q = "\<lambda>t k. \<not> (t = rtype \<and> Some k \<in> set (map rel_row_key rows))" and rows = rows
           and rtype = rtype and g = g and slabel = slabel and skey = skey and tlabel = tlabel
           and tkey = tkey]
      by simp
  qed
  have latest: "map r_props (relationships_with_key rtype sk tk
                   (write_relationships rtype slabel skey tlabel tkey (rows1 @ p # rows2) g)) =
                 [rel_props p]"
    if "distinct (rel_keys rtype (g_relationships g)) \<and> rel_row_key p = Some (sk, tk) \<and>
        node_exists slabel skey sk (g_nodes g) \<and> node_exists tlabel tkey tk (g_nodes g) \<and>
        list_all (\<lambda>p'. rel_row_key p' \<noteq> Some (sk, tk)) rows2"
    for rows1 p rows2 sk tk and g :: "'a graph"
    unfolding relationships_with_key_def
    by (rule rows_latest) (use that in simp_all)
  show ?thesis
    unfolding relationship_upsert_contract_def
    by (intro allI conjI impI)
       (simp_all add: other latest,
        simp_all add: relationships_with_key_def rows_take rows_distinct rows_missing_endpoint
          write_relationships_append)
qed

lemma patients_neo4j_write_fun:
  "patients_neo4j_write = write_nodes ''Patient'' [''id'', ''mrn'']"
  by (intro ext) (simp add: patients_neo4j_write_def)

lemma medications_neo4j_write_fun:
  "medications_neo4j_write = write_nodes ''Medication'' [''id'', ''rxNormCode'']"
  by (intro ext) (simp add: medications_neo4j_write_def)

lemma prescriptions_neo4j_write_fun:
  "prescriptions_neo4j_write =
     write_relationships ''PRESCRIBED'' ''Patient'' ''id'' ''Medication'' ''id''"
  by (intro ext) (simp add: prescriptions_neo4j_write_def)

text \<open>
  Claim C7. The node writes of the patients and medications notebooks and the relationship
  write of the prescriptions notebook are keyed upserts: they update in place, leave
  everything they do not address unchanged, and never create a second node or
  relationship for a key. In particular, after loading a record and then a record with the
  same key values (the same record again, or a later version of it), exactly one node or
  relationship has that key and it holds the property values of the later record. The
  write calls do not read \<open>INCREMENTAL_MODE\<close>, so this holds in full and in incremental
  mode.
\<close>

theorem keyed_upsert_no_duplicates:
  "node_upsert_contract ''Patient'' [''id'', ''mrn''] patients_neo4j_write \<and>
   node_upsert_contract ''Medication'' [''id'', ''rxNormCode''] medications_neo4j_write \<and>
   relationship_upsert_contract ''PRESCRIBED'' ''Patient'' ''id'' ''Medication'' ''id''
     prescriptions_neo4j_write"
  by (simp add: patients_neo4j_write_fun medications_neo4j_write_fun
        prescriptions_neo4j_write_fun write_nodes_contract write_relationships_contract)

theorem keyed_upsert_no_duplicates_witness:
  "distinct (node_keys ''Patient'' [''id'', ''mrn''] (g_nodes example_graph)) \<and>
   key_of [''id'', ''mrn''] (patient_row ''Tampa'') = key_of [''id'', ''mrn''] (patient_row ''Miami'') \<and>
   map n_props (nodes_with_key ''Patient'' [''id'', ''mrn''] [Some ''P1'', Some ''M1'']
     (patients_neo4j_write [patient_row ''Miami'']
        (patients_neo4j_write [patient_row ''Tampa''] example_graph))) = [patient_row ''Miami''] \<and>
   map (\<lambda>n. n_props n ''city'') (nodes_with_key ''Patient'' [''id'', ''mrn''] [Some ''P1'', Some ''M1'']
     (patients_neo4j_write [patient_row_no_city]
        (patients_neo4j_write [patient_row ''Tampa''] example_graph))) = [None] \<and>
   map n_label (g_nodes (patients_neo4j_write [patient_row ''Miami'']
        (patients_neo4j_write [patient_row ''Tampa''] example_graph))) =
     [''Patient'', ''Patient'', ''Medication''] \<and>
   distinct (rel_keys ''PRESCRIBED'' (g_relationships example_graph)) \<and>
   rel_row_key (prescription_row ''20mg'') = Some (''P1'', ''D1'') \<and>
   node_exists ''Patient'' ''id'' ''P1'' (g_nodes example_graph) \<and>
   node_exists ''Medication'' ''id'' ''D1'' (g_nodes example_graph) \<and>
   map r_props (relationships_with_key ''PRESCRIBED'' ''P1'' ''D1''
     (prescriptions_neo4j_write [prescription_row ''20mg'']
        (prescriptions_neo4j_write [prescription_row ''10mg''] example_graph))) =
     [rel_props (prescription_row ''20mg'')] \<and>
   rel_props (prescription_row ''20mg'') ''dosage'' = Some ''20mg''"
proof -
  have c: "node_upsert_contract ''Patient'' [''id'', ''mrn'']
             (patients_neo4j_write :: (string \<rightharpoonup> string) list \<Rightarrow> string graph \<Rightarrow> string graph)"
    and rc: "relationship_upsert_contract ''PRESCRIBED'' ''Patient'' ''id'' ''Medication'' ''id''
             (prescriptions_neo4j_write :: (string \<rightharpoonup> string) list \<Rightarrow> string graph \<Rightarrow> string graph)"
    using keyed_upsert_no_duplicates by blast+
  have d: "distinct (node_keys ''Patient'' [''id'', ''mrn''] (g_nodes example_graph))"
    by (simp add: node_keys_def example_graph_def key_of_def)
  have k: "key_of [''id'', ''mrn''] (patient_row c) = [Some ''P1'', Some ''M1'']" for c
    by (simp add: key_of_def patient_row_def)
  have k': "key_of [''id'', ''mrn''] patient_row_no_city = [Some ''P1'', Some ''M1'']"
    by (simp add: key_of_def patient_row_no_city_def)
  have compose: "patients_neo4j_write rows2 (patients_neo4j_write rows1 example_graph) =
                 patients_neo4j_write (rows1 @ rows2) example_graph" for rows1 rows2
    using c unfolding node_upsert_contract_def by blast
  have latest: "map n_props (nodes_with_key ''Patient'' [''id'', ''mrn'']
                  (key_of [''id'', ''mrn''] r) (patients_neo4j_write ([r1] @ r # []) example_graph)) = [r]"
    for r1 r
  proof -
    have "list_all (\<lambda>r'. key_of [''id'', ''mrn''] r' \<noteq> key_of [''id'', ''mrn''] r) []" by simp
    with c d show ?thesis unfolding node_upsert_contract_def by blast
  qed
  have n1: "map n_props (nodes_with_key ''Patient'' [''id'', ''mrn''] [Some ''P1'', Some ''M1'']
     (patients_neo4j_write [patient_row ''Miami'']
        (patients_neo4j_write [patient_row ''Tampa''] example_graph))) = [patient_row ''Miami'']"
    using latest [where ?r1.0 = "patient_row ''Tampa''" and r = "patient_row ''Miami''"] by (simp add: compose k)
  have n2: "map n_props (nodes_with_key ''Patient'' [''id'', ''mrn''] [Some ''P1'', Some ''M1'']
     (patients_neo4j_write [patient_row_no_city]
        (patients_neo4j_write [patient_row ''Tampa''] example_graph))) = [patient_row_no_city]"
    using latest [where ?r1.0 = "patient_row ''Tampa''" and r = patient_row_no_city] by (simp add: compose k')
  have n2': "map (\<lambda>n. n_props n ''city'') (nodes_with_key ''Patient'' [''id'', ''mrn'']
     [Some ''P1'', Some ''M1'']
     (patients_neo4j_write [patient_row_no_city]
        (patients_neo4j_write [patient_row ''Tampa''] example_graph))) =
     map (\<lambda>p. p ''city'') [patient_row_no_city]"
    using arg_cong [OF n2, of "map (\<lambda>p. p ''city'')"] by (simp add: comp_def)
  have take: "take (length (g_nodes example_graph))
      (map (node_id [''id'', ''mrn'']) (g_nodes (patients_neo4j_write rows example_graph))) =
      map (node_id [''id'', ''mrn'']) (g_nodes example_graph)" for rows
    using c unfolding node_upsert_contract_def by blast
  have n3: "map n_label (g_nodes (patients_neo4j_write [patient_row ''Miami'']
        (patients_neo4j_write [patient_row ''Tampa''] example_graph))) =
     [''Patient'', ''Patient'', ''Medication'']"
    by (simp add: patients_neo4j_write_def write_nodes_def upsert_node_def keyed_upsert_def
          node_matches_def key_of_def patient_row_def example_graph_def)
  have rd: "distinct (rel_keys ''PRESCRIBED'' (g_relationships example_graph))"
    by (simp add: rel_keys_def example_graph_def)
  have rk: "rel_row_key (prescription_row d) = Some (''P1'', ''D1'')" for d
    by (simp add: rel_row_key_def prescription_row_def)
  have e1: "node_exists ''Patient'' ''id'' ''P1'' (g_nodes example_graph)"
    and e2: "node_exists ''Medication'' ''id'' ''D1'' (g_nodes example_graph)"
    by (simp_all add: node_exists_def example_graph_def)
  have rcompose: "prescriptions_neo4j_write rows2 (prescriptions_neo4j_write rows1 example_graph) =
                 prescriptions_neo4j_write (rows1 @ rows2) example_graph" for rows1 rows2
    using rc unfolding relationship_upsert_contract_def by blast
  have rlatest: "map r_props (relationships_with_key ''PRESCRIBED'' ''P1'' ''D1''
                  (prescriptions_neo4j_write ([p1] @ prescription_row d # []) example_graph)) =
                 [rel_props (prescription_row d)]"
    for p1 d
  proof -
    have "list_all (\<lambda>p'. rel_row_key p' \<noteq> Some (''P1'', ''D1'')) []" by simp
    with rc rd rk [of d] e1 e2 show ?thesis unfolding relationship_upsert_contract_def by blast
  qed
  have r1: "map r_props (relationships_with_key ''PRESCRIBED'' ''P1'' ''D1''
     (prescriptions_neo4j_write [prescription_row ''20mg'']
        (prescriptions_neo4j_write [prescription_row ''10mg''] example_graph))) =
     [rel_props (prescription_row ''20mg'')]"
    using rlatest [where ?p1.0 = "prescription_row ''10mg''" and d = "''20mg''"] by (simp add: rcompose)
  show ?thesis
    using d k n1 n2' n3 rd rk e1 e2 r1
    by (simp add: patient_row_no_city_def rel_props_def prescription_row_def)
qed

end
